theory Spec2Isabelle
  imports Complex_Main
begin

section \<open>Values shared by the tools\<close>

text \<open>
  Payloads are what \<^verbatim>\<open>JSON.parse\<close> yields, or the raw text when parsing fails.
  A JavaScript number is modelled by a rational (\<^verbatim>\<open>NaN\<close> and the infinities are not
  JSON); an object by the association list of its own properties, in insertion order,
  with distinct keys as the parser builds it.
\<close>

datatype json =
    JNull
  | JBool bool
  | JNum rat
  | JStr string
  | JArr "json list"
  | JObj "(string \<times> json) list"

text \<open>JavaScript truthiness of a payload: \<^verbatim>\<open>!data\<close> is \<^verbatim>\<open>\<not> truthy data\<close>.\<close>

fun truthy :: "json \<Rightarrow> bool" where
  "truthy JNull = False"
| "truthy (JBool b) = b"
| "truthy (JNum n) = (n \<noteq> 0)"
| "truthy (JStr s) = (s \<noteq> [])"
| "truthy (JArr xs) = True"
| "truthy (JObj kvs) = True"

text \<open>
  Instants are milliseconds since the epoch, as \<^verbatim>\<open>Date.getTime()\<close> reports them.
  Numbers are exact: the rounding of floating point arithmetic and the bounds of the range
  of \<^verbatim>\<open>Date\<close> are outside the model.
\<close>

type_synonym instant = int

section \<open>Shared event store (shared-memory-tool.ts)\<close>

text \<open>
  One element of \<^verbatim>\<open>sensorMemoryStore\<close>. The source keeps \<^verbatim>\<open>timestamp\<close> as the ISO
  string of the instant at which the entry was pushed; the model keeps the instant.
\<close>

record SensorEntry =
  topic :: string
  data :: json
  timestamp :: instant
  analysis :: string

type_synonym sensorMemoryStore = "SensorEntry list"

text \<open>
  \<^verbatim>\<open>push\<close> appends; \<^verbatim>\<open>shift\<close> removes the element at index 0. The second argument
  of each operation is the clock reading taken by \<^verbatim>\<open>new Date()\<close>.
\<close>

definition push_and_trim :: "SensorEntry \<Rightarrow> sensorMemoryStore \<Rightarrow> sensorMemoryStore" where
  "push_and_trim e s = (let s' = s @ [e] in if length s' > 100 then tl s' else s')"

definition addSensorData :: "string \<Rightarrow> json \<Rightarrow> string \<Rightarrow> instant \<Rightarrow> sensorMemoryStore \<Rightarrow> sensorMemoryStore" where
  "addSensorData tp d an now s =
     push_and_trim \<lparr>topic = tp, data = d, timestamp = now, analysis = an\<rparr> s"

text \<open>
  The \<^verbatim>\<open>store\<close> action of \<^verbatim>\<open>sharedMemoryTool.execute\<close>. Topic, data and analysis are
  optional inputs; a missing or falsy topic or payload is refused before anything is
  pushed. The result is \<^verbatim>\<open>success\<close> and, on success, \<^verbatim>\<open>count\<close>.
\<close>

definition store_action ::
  "string option \<Rightarrow> json option \<Rightarrow> string option \<Rightarrow> instant \<Rightarrow> sensorMemoryStore
     \<Rightarrow> (bool \<times> nat option) \<times> sensorMemoryStore" where
  "store_action tp d an now s =
     (case (tp, d) of
        (Some t, Some v) \<Rightarrow>
          if t = [] \<or> \<not> truthy v then ((False, None), s)
          else
            (let a = (case an of None \<Rightarrow> ''No analysis provided''
                               | Some x \<Rightarrow> if x = [] then ''No analysis provided'' else x);
                 s' = push_and_trim \<lparr>topic = t, data = v, timestamp = now, analysis = a\<rparr> s
             in ((True, Some (length s')), s'))
      | _ \<Rightarrow> ((False, None), s))"

definition getSensorData :: "sensorMemoryStore \<Rightarrow> SensorEntry list" where
  "getSensorData s = s"

text \<open>
  The operations that reach the store: the tool's three actions and the helper called by
  the dispatcher. \<^verbatim>\<open>query\<close> and \<^verbatim>\<open>list_all\<close> only read.
\<close>

datatype store_op =
    ToolStore "string option" "json option" "string option" instant
  | ToolQuery string
  | ToolListAll
  | AddSensorData string json string instant

fun apply_store_op :: "sensorMemoryStore \<Rightarrow> store_op \<Rightarrow> sensorMemoryStore" where
  "apply_store_op s (ToolStore tp d an now) = snd (store_action tp d an now s)"
| "apply_store_op s (ToolQuery q) = s"
| "apply_store_op s ToolListAll = s"
| "apply_store_op s (AddSensorData tp d an now) = addSensorData tp d an now s"

definition run_store_ops :: "store_op list \<Rightarrow> sensorMemoryStore \<Rightarrow> sensorMemoryStore" where
  "run_store_ops ops s = foldl apply_store_op s ops"

text \<open>
  What each operation is asked to store, stated apart from the code that stores it. The
  helper is given a topic, a payload and an annotation, and the event has these and the
  clock reading. The tool stores the event of a request that names a topic and a payload,
  neither of them falsy, with the annotation given or else the default text; any other
  request is refused. The two reading actions store nothing.
\<close>

fun stored_entry :: "store_op \<Rightarrow> SensorEntry option" where
  "stored_entry (ToolStore (Some t) (Some v) an now) =
     (if t \<noteq> [] \<and> truthy v
      then Some \<lparr>topic = t, data = v, timestamp = now,
                 analysis = (case an of
                               None \<Rightarrow> ''No analysis provided''
                             | Some x \<Rightarrow> if x = [] then ''No analysis provided'' else x)\<rparr>
      else None)"
| "stored_entry (ToolStore tp d an now) = None"
| "stored_entry (ToolQuery q) = None"
| "stored_entry ToolListAll = None"
| "stored_entry (AddSensorData tp d an now) =
     Some \<lparr>topic = tp, data = d, timestamp = now, analysis = an\<rparr>"

definition stored_entries :: "store_op list \<Rightarrow> SensorEntry list" where
  "stored_entries ops = List.map_filter stored_entry ops"

section \<open>Topic matcher (mqtt-subscribe.ts)\<close>

text \<open>
  \<^verbatim>\<open>s.split("/")\<close>: the segments between the separators; the empty string has one
  (empty) segment.
\<close>

fun split_on :: "char \<Rightarrow> string \<Rightarrow> string list" where
  "split_on c [] = [[]]"
| "split_on c (x # xs) =
     (if x = c then [] # split_on c xs
      else (case split_on c xs of
              [] \<Rightarrow> [[x]]
            | p # ps \<Rightarrow> (x # p) # ps))"

text \<open>The \<^verbatim>\<open>for\<close> loop of \<^verbatim>\<open>topicMatches\<close>, from index \<open>i\<close>, and the final comparison.\<close>

function topicMatches_from :: "string list \<Rightarrow> string list \<Rightarrow> nat \<Rightarrow> bool" where
  "topicMatches_from actualParts subParts i =
     (if i < length subParts then
        (if subParts ! i = ''#'' then True
         else if subParts ! i = ''+'' then topicMatches_from actualParts subParts (i + 1)
         else if i \<ge> length actualParts \<or> subParts ! i \<noteq> actualParts ! i then False
         else topicMatches_from actualParts subParts (i + 1))
      else length actualParts = length subParts)"
  by pat_completeness auto
termination
  by (relation "measure (\<lambda>(a, s, i). length s - i)") auto

declare topicMatches_from.simps [simp del]

definition topicMatches :: "string \<Rightarrow> string \<Rightarrow> bool" where
  "topicMatches actualTopic subscriptionTopic =
     topicMatches_from (split_on CHR ''/'' actualTopic) (split_on CHR ''/'' subscriptionTopic) 0"


section \<open>Dispatcher (mqtt-subscribe.ts, \<^verbatim>\<open>handleMessage\<close>)\<close>

text \<open>
  One value of the \<^verbatim>\<open>subscriptions\<close> map. The filter is the list of
  \<^verbatim>\<open>Object.entries\<close> of the configured object, when one was configured.
\<close>

record Subscription =
  topic :: string
  qos :: nat
  filter_sub :: "(string \<times> json) list option"
  paused :: bool

text \<open>
  \<^verbatim>\<open>a === b\<close> between a property read from a freshly parsed payload and a filter value:
  primitives compare by value; an object or an array is only identical to itself, and the
  payload shares no object with the filter.
\<close>

fun strict_eq :: "json \<Rightarrow> json \<Rightarrow> bool" where
  "strict_eq JNull JNull = True"
| "strict_eq (JBool a) (JBool b) = (a = b)"
| "strict_eq (JNum a) (JNum b) = (a = b)"
| "strict_eq (JStr a) (JStr b) = (a = b)"
| "strict_eq a b = False"

text \<open>
  Array keys: a canonical index (decimal digits without a leading zero, or \<^verbatim>\<open>"0"\<close>)
  names an element, \<^verbatim>\<open>"length"\<close> the length.
\<close>

definition digit_val :: "char \<Rightarrow> nat option" where
  "digit_val c =
     (let n = (of_char c :: nat) in if 48 \<le> n \<and> n \<le> 57 then Some (n - 48) else None)"

fun digits_val :: "nat \<Rightarrow> string \<Rightarrow> nat option" where
  "digits_val acc [] = Some acc"
| "digits_val acc (c # cs) =
     (case digit_val c of None \<Rightarrow> None | Some d \<Rightarrow> digits_val (10 * acc + d) cs)"

definition array_index :: "string \<Rightarrow> nat option" where
  "array_index k =
     (if k = [] then None
      else if hd k = CHR ''0'' \<and> tl k \<noteq> [] then None
      else digits_val 0 k)"

text \<open>
  \<^verbatim>\<open>payload[key]\<close> as far as it can equal a filter value: the own property of an
  object, the length or an element of an array, the length or a character of a text (for
  text within ASCII, where the model's characters are the runtime's). \<open>None\<close> stands for
  \<^verbatim>\<open>undefined\<close> and for inherited methods, neither of which is identical to a filter
  value. Not for \<^verbatim>\<open>null\<close>, where the read throws.
\<close>

fun field_of :: "json \<Rightarrow> string \<Rightarrow> json option" where
  "field_of (JObj kvs) k = map_of kvs k"
| "field_of (JArr xs) k =
     (if k = ''length'' then Some (JNum (of_nat (length xs)))
      else (case array_index k of
              None \<Rightarrow> None
            | Some i \<Rightarrow> if i < length xs then Some (xs ! i) else None))"
| "field_of (JStr s) k =
     (if k = ''length'' then Some (JNum (of_nat (length s)))
      else (case array_index k of
              None \<Rightarrow> None
            | Some i \<Rightarrow> if i < length s then Some (JStr [s ! i]) else None))"
| "field_of p k = None"

datatype js_fault = TypeError

text \<open>\<^verbatim>\<open>parsedMessage[key] === value\<close>.\<close>

definition property_equals :: "json \<Rightarrow> string \<Rightarrow> json \<Rightarrow> js_fault + bool" where
  "property_equals p k v =
     (if p = JNull then Inl TypeError
      else Inr (case field_of p k of None \<Rightarrow> False | Some x \<Rightarrow> strict_eq x v))"

text \<open>\<^verbatim>\<open>entries.every(...)\<close>: stops at the first entry that fails, or at a fault.\<close>

fun every_entry :: "json \<Rightarrow> (string \<times> json) list \<Rightarrow> js_fault + bool" where
  "every_entry p [] = Inr True"
| "every_entry p ((k, v) # kvs) =
     (case property_equals p k v of
        Inl f \<Rightarrow> Inl f
      | Inr False \<Rightarrow> Inr False
      | Inr True \<Rightarrow> every_entry p kvs)"

fun typeof_object :: "json \<Rightarrow> bool" where
  "typeof_object JNull = True"
| "typeof_object (JArr xs) = True"
| "typeof_object (JObj kvs) = True"
| "typeof_object p = False"

text \<open>
  \<^verbatim>\<open>JSON.parse\<close> is the runtime's; the dispatcher falls back to the raw text when it
  throws.
\<close>

definition parse_message :: "(string \<Rightarrow> json option) \<Rightarrow> string \<Rightarrow> json" where
  "parse_message JSON_parse raw = (case JSON_parse raw of Some j \<Rightarrow> j | None \<Rightarrow> JStr raw)"

text \<open>
  The body of the \<^verbatim>\<open>forEach\<close> callback up to the store call: does this subscription
  forward the message? A fault inside the \<^verbatim>\<open>try\<close> block is caught and nothing is stored.
\<close>

definition forwards :: "Subscription \<Rightarrow> json \<Rightarrow> bool" where
  "forwards sub parsedMessage =
     (if paused sub then False
      else (case filter_sub sub of
              None \<Rightarrow> True
            | Some f \<Rightarrow>
                if typeof_object parsedMessage then
                  (case every_entry parsedMessage f of
                     Inl fault \<Rightarrow> False
                   | Inr filterMatches \<Rightarrow> filterMatches)
                else True))"

text \<open>
  \<^verbatim>\<open>handleMessage\<close>. The subscriptions are the entries of the map in insertion order.
  \<open>annotate\<close> is the analysis text built from \<^verbatim>\<open>determineMessageType\<close> and
  \<^verbatim>\<open>extractDeviceId\<close> (neither throws); \<open>clock\<close> gives the clock reading taken while
  the subscription with that key stores the message.
\<close>

definition deliver ::
  "(string \<Rightarrow> json \<Rightarrow> string) \<Rightarrow> (string \<Rightarrow> instant) \<Rightarrow> string \<Rightarrow> json
     \<Rightarrow> sensorMemoryStore \<Rightarrow> string \<times> Subscription \<Rightarrow> sensorMemoryStore" where
  "deliver annotate clock tp parsedMessage s entry =
     (if forwards (snd entry) parsedMessage
      then addSensorData tp parsedMessage (annotate tp parsedMessage) (clock (fst entry)) s
      else s)"

definition handleMessage ::
  "(string \<Rightarrow> json option) \<Rightarrow> (string \<Rightarrow> json \<Rightarrow> string) \<Rightarrow> (string \<Rightarrow> instant)
     \<Rightarrow> (string \<times> Subscription) list \<Rightarrow> string \<Rightarrow> string
     \<Rightarrow> sensorMemoryStore \<Rightarrow> sensorMemoryStore" where
  "handleMessage JSON_parse annotate clock subscriptions tp message s =
     (let matchingSubscriptions = filter (\<lambda>(subTopic, sub). topicMatches tp subTopic) subscriptions
      in foldl (deliver annotate clock tp (parse_message JSON_parse message)) s matchingSubscriptions)"


section \<open>Temperature safety evaluator (coop-temp-alert)\<close>

record TempReading =
  temperature :: json
  timestamp :: instant
  source :: string

definition STALE_DATA_THRESHOLD :: int where
  "STALE_DATA_THRESHOLD = 2 * 60 * 1000"

definition RATE_LIMIT_INTERVAL :: int where
  "RATE_LIMIT_INTERVAL = 5 * 1000"

text \<open>The module state: the reading cache and the time of the last accepted call.\<close>

record temp_state =
  tempCache :: "string \<rightharpoonup> TempReading"
  lastCallTime :: instant

definition initial_temp_state :: temp_state where
  "initial_temp_state = \<lparr>tempCache = Map.empty, lastCallTime = 0\<rparr>"

text \<open>\<^verbatim>\<open>s.includes(sub)\<close> on strings.\<close>

fun includes_str :: "string \<Rightarrow> string \<Rightarrow> bool" where
  "includes_str [] sub = (sub = [])"
| "includes_str (x # xs) sub = (take (length sub) (x # xs) = sub \<or> includes_str xs sub)"

text \<open>
  \<^verbatim>\<open>entry.data.temperature\<close>: throws on \<^verbatim>\<open>null\<close>; the own property of an object;
  \<^verbatim>\<open>undefined\<close> (\<open>None\<close>) on arrays and primitives.
\<close>

fun temperature_of :: "json \<Rightarrow> js_fault + json option" where
  "temperature_of JNull = Inl TypeError"
| "temperature_of (JObj kvs) = Inr (map_of kvs ''temperature'')"
| "temperature_of d = Inr None"

text \<open>
  The \<^verbatim>\<open>filter\<close> call of \<^verbatim>\<open>fetchFromSharedMemory\<close>: \<^verbatim>\<open>&&\<close> reads the payload only
  when the topic test passed, and a fault at any entry aborts the whole call.
\<close>

fun temp_entries :: "SensorEntry list \<Rightarrow> js_fault + SensorEntry list" where
  "temp_entries [] = Inr []"
| "temp_entries (e # es) =
     (if includes_str (SensorEntry.topic e) ''temp'' then
        (case temperature_of (data e) of
           Inl f \<Rightarrow> Inl f
         | Inr v \<Rightarrow>
             (case temp_entries es of
                Inl f \<Rightarrow> Inl f
              | Inr r \<Rightarrow> Inr (if v \<noteq> None then e # r else r)))
      else temp_entries es)"

text \<open>
  \<^verbatim>\<open>sort((a, b) => time(b) - time(a))\<close>: a stable sort by descending instant
  (\<^const>\<open>sort_key\<close> is a stable insertion sort).
\<close>

definition newest_first :: "SensorEntry list \<Rightarrow> SensorEntry list" where
  "newest_first es = sort_key (\<lambda>e. - SensorEntry.timestamp e) es"

definition fetchFromSharedMemory :: "string \<Rightarrow> sensorMemoryStore \<Rightarrow> js_fault + TempReading option" where
  "fetchFromSharedMemory coopId st =
     (case temp_entries (getSensorData st) of
        Inl f \<Rightarrow> Inl f
      | Inr tempReadings \<Rightarrow>
          (case newest_first tempReadings of
             [] \<Rightarrow> Inr None
           | latest # rest \<Rightarrow>
               (case temperature_of (data latest) of
                  Inr (Some t) \<Rightarrow>
                    Inr (Some \<lparr>temperature = t, timestamp = SensorEntry.timestamp latest,
                               source = ''mqtt-shared-memory''\<rparr>)
                | Inr None \<Rightarrow> Inr None
                | Inl f \<Rightarrow> Inl f)))"

text \<open>
  \<^verbatim>\<open>generateSimulatedReading\<close>: the hour of day, the two \<^verbatim>\<open>Math.random()\<close> draws and the
  clock reading are inputs.
\<close>

record sim_input =
  hour :: nat
  random1 :: rat
  random2 :: rat
  sim_now :: instant

definition generateSimulatedReading :: "sim_input \<Rightarrow> TempReading" where
  "generateSimulatedReading env =
     (let h = hour env;
          baseTemp =
            (if h \<ge> 6 \<and> h < 10 then 65 + random1 env * 10
             else if h \<ge> 10 \<and> h < 16 then 75 + random1 env * 15
             else if h \<ge> 16 \<and> h < 20 then 70 + random1 env * 10
             else 60 + random1 env * 10);
          baseTemp' = baseTemp + (random2 env - 1 / 2) * 5
      in \<lparr>temperature = JNum (of_int (round (baseTemp' * 10)) / 10),
          timestamp = sim_now env, source = ''simulated''\<rparr>)"

text \<open>
  \<^verbatim>\<open>getLatestTemperature\<close>; \<open>now\<close> is its own clock reading. The cache entry is used
  while the reading it holds is less than 30 seconds old.
\<close>

definition fresh_cached :: "TempReading option \<Rightarrow> instant \<Rightarrow> TempReading option" where
  "fresh_cached cached now =
     (case cached of
        None \<Rightarrow> None
      | Some c \<Rightarrow> if now - TempReading.timestamp c < 30000 then Some c else None)"

definition getLatestTemperature ::
  "string \<Rightarrow> instant \<Rightarrow> sim_input \<Rightarrow> sensorMemoryStore \<Rightarrow> temp_state
     \<Rightarrow> (js_fault + TempReading) \<times> temp_state" where
  "getLatestTemperature coopId now env store st =
     (case fresh_cached (tempCache st coopId) now of
        Some cached \<Rightarrow> (Inr cached, st)
      | None \<Rightarrow>
          (case fetchFromSharedMemory coopId store of
             Inl f \<Rightarrow> (Inl f, st)
           | Inr r \<Rightarrow>
               (let reading = (case r of Some x \<Rightarrow> x | None \<Rightarrow> generateSimulatedReading env)
                in (Inr reading, st\<lparr>tempCache := (tempCache st)(coopId \<mapsto> reading)\<rparr>))))"

text \<open>
  Numbers in comparisons and arithmetic: \<^verbatim>\<open>ToNumber\<close> of the value, \<open>None\<close> for
  \<^verbatim>\<open>NaN\<close>. Strings, arrays and objects are converted by the runtime through their text;
  that conversion is the parameter \<open>coerce\<close>.
\<close>

definition to_number :: "(json \<Rightarrow> rat option) \<Rightarrow> json \<Rightarrow> rat option" where
  "to_number coerce v =
     (case v of
        JNum n \<Rightarrow> Some n
      | JNull \<Rightarrow> Some 0
      | JBool b \<Rightarrow> Some (if b then 1 else 0)
      | _ \<Rightarrow> coerce v)"

text \<open>Comparisons with \<^verbatim>\<open>NaN\<close> are false.\<close>

definition num_lt :: "rat option \<Rightarrow> rat \<Rightarrow> bool" where
  "num_lt a b = (case a of None \<Rightarrow> False | Some x \<Rightarrow> x < b)"

definition num_gt :: "rat option \<Rightarrow> rat \<Rightarrow> bool" where
  "num_gt a b = (case a of None \<Rightarrow> False | Some x \<Rightarrow> x > b)"

datatype status = OK | LOW | HIGH | STALE

text \<open>
  The recommendation texts, by their content: the age in whole seconds, the distance from
  the bound (printed with one decimal), or one of the three in-range notes.
\<close>

datatype advice =
    StaleWarning int
  | BelowMinimum "rat option"
  | AboveMaximum "rat option"
  | Optimal
  | SlightlyCool
  | SlightlyWarm

record temp_result =
  current :: json
  status :: status
  message :: advice
  timestamp :: instant

datatype temp_error = RateLimited int | Fault js_fault

text \<open>The part of \<^verbatim>\<open>execute\<close> after the reading was obtained.\<close>

definition classify ::
  "(json \<Rightarrow> rat option) \<Rightarrow> rat \<Rightarrow> rat \<Rightarrow> instant \<Rightarrow> TempReading \<Rightarrow> temp_result" where
  "classify coerce minSafe maxSafe now reading =
     (let dataAge = now - TempReading.timestamp reading;
          t = to_number coerce (temperature reading)
      in if dataAge > STALE_DATA_THRESHOLD then
           \<lparr>current = temperature reading, status = STALE,
            message = StaleWarning (dataAge div 1000),
            timestamp = TempReading.timestamp reading\<rparr>
         else if num_lt t minSafe then
           \<lparr>current = temperature reading, status = LOW,
            message = BelowMinimum (map_option (\<lambda>x. minSafe - x) t),
            timestamp = TempReading.timestamp reading\<rparr>
         else if num_gt t maxSafe then
           \<lparr>current = temperature reading, status = HIGH,
            message = AboveMaximum (map_option (\<lambda>x. x - maxSafe) t),
            timestamp = TempReading.timestamp reading\<rparr>
         else
           (let optimal = (minSafe + maxSafe) / 2;
                deviation = map_option (\<lambda>x. \<bar>x - optimal\<bar>) t
            in \<lparr>current = temperature reading, status = OK,
                message = (if num_lt deviation 5 then Optimal
                           else if num_lt t optimal then SlightlyCool
                           else SlightlyWarm),
                timestamp = TempReading.timestamp reading\<rparr>))"

text \<open>
  \<^verbatim>\<open>coopTempAlertTool.execute\<close>. \<open>now\<close> is the reading of \<^verbatim>\<open>Date.now()\<close> at entry,
  \<open>now_read\<close> the one taken inside \<^verbatim>\<open>getLatestTemperature\<close>. The wait hint is
  \<^verbatim>\<open>Math.ceil\<close> of the remaining milliseconds over 1000.
\<close>

definition coopTempAlert ::
  "(json \<Rightarrow> rat option) \<Rightarrow> rat \<Rightarrow> rat \<Rightarrow> string \<Rightarrow> instant \<Rightarrow> instant \<Rightarrow> sim_input
     \<Rightarrow> sensorMemoryStore \<Rightarrow> temp_state \<Rightarrow> (temp_error + temp_result) \<times> temp_state" where
  "coopTempAlert coerce minSafe maxSafe coopId now now_read env store st =
     (if now - lastCallTime st < RATE_LIMIT_INTERVAL then
        (Inl (RateLimited
               \<lceil>of_int (RATE_LIMIT_INTERVAL - (now - lastCallTime st)) / (1000 :: rat)\<rceil>), st)
      else
        (let st1 = st\<lparr>lastCallTime := now\<rparr>
         in (case getLatestTemperature coopId now_read env store st1 of
               (Inl f, st2) \<Rightarrow> (Inl (Fault f), st2)
             | (Inr reading, st2) \<Rightarrow>
                 (Inr (classify coerce minSafe maxSafe now reading), st2))))"


text \<open>
  A sequence of calls of the tool, each with its safe range, coop, clock readings,
  simulation inputs and the store as it is at that moment. The module state is threaded
  through; the outcomes are collected in order.
\<close>

type_synonym temp_call = "rat \<times> rat \<times> string \<times> instant \<times> instant \<times> sim_input \<times> sensorMemoryStore"

fun run_call ::
  "(json \<Rightarrow> rat option) \<Rightarrow> temp_call \<Rightarrow> temp_state \<Rightarrow> (temp_error + temp_result) \<times> temp_state" where
  "run_call coerce (minSafe, maxSafe, c, now, now_read, env, store) st =
     coopTempAlert coerce minSafe maxSafe c now now_read env store st"

fun run_calls ::
  "(json \<Rightarrow> rat option) \<Rightarrow> temp_call list \<Rightarrow> temp_state
     \<Rightarrow> (temp_error + temp_result) list \<times> temp_state" where
  "run_calls coerce [] st = ([], st)"
| "run_calls coerce (call # calls) st =
     (case run_call coerce call st of
        (r, st1) \<Rightarrow> (case run_calls coerce calls st1 of (rs, st2) \<Rightarrow> (r # rs, st2)))"

fun rate_limited :: "temp_error + temp_result \<Rightarrow> bool" where
  "rate_limited (Inl (RateLimited w)) = True"
| "rate_limited r = False"

section \<open>Feed scheduler (feed-schedule)\<close>

record FeedingRecord =
  lastFedAt :: instant
  nextFeedAt :: instant
  coopId :: string
  intervalHours :: rat

text \<open>
  The argument of \<^verbatim>\<open>requestApproval\<close>. The reason text is
  \<^verbatim>\<open>Short feeding interval (N hours) may cause overfeeding\<close>, determined by the interval.
\<close>

datatype reason = ShortInterval rat

record approval_request =
  action :: string
  reason :: reason
  coopId :: string
  intervalHours :: rat

text \<open>
  The runtime's pending timers, each with its due instant and the coop its callback names,
  and a log of the calls made to the gate and to the timer functions, in order.
\<close>

record timer =
  fires_at :: instant
  timer_coop :: string

datatype effect =
    GateCalled approval_request
  | TimerCleared nat
  | TimerArmed nat string instant

record feed_state =
  feedingRecords :: "string \<rightharpoonup> FeedingRecord"
  scheduledReminders :: "string \<rightharpoonup> nat"
  approvalCallback :: "(approval_request \<Rightarrow> bool) option"
  timers :: "(nat \<times> timer) list"
  next_handle :: nat
  effects :: "effect list"

definition initial_feed_state :: feed_state where
  "initial_feed_state =
     \<lparr>feedingRecords = Map.empty, scheduledReminders = Map.empty, approvalCallback = None,
      timers = [], next_handle = 0, effects = []\<rparr>"

definition setApprovalCallback :: "(approval_request \<Rightarrow> bool) \<Rightarrow> feed_state \<Rightarrow> feed_state" where
  "setApprovalCallback callback st = st\<lparr>approvalCallback := Some callback\<rparr>"

text \<open>
  The status texts, by their content: hours and minutes overdue; due now, with the interval
  of the call; minutes until the next feeding; hours until the next feeding (printed with
  one decimal); and the two suffixes about the reminder.
\<close>

datatype notice =
    Overdue int int
  | DueNow rat
  | PrepareSoon int
  | OnSchedule rat
  | ReminderNotScheduled
  | ReminderScheduled

record feed_result =
  lastFedAt :: instant
  nextAt :: instant
  due :: bool
  message :: "notice list"
  reminderScheduled :: bool

text \<open>
  What \<^verbatim>\<open>execute\<close> throws: the three \<^verbatim>\<open>Error\<close>s of its own
  (\<^verbatim>\<open>Interval must be between 1 and 48 hours\<close>,
  \<^verbatim>\<open>Invalid ISO timestamp for lastFedAt\<close>, \<^verbatim>\<open>No feeding history found\<close>), the
  \<^verbatim>\<open>APPROVAL REQUIRED\<close> error of \<^verbatim>\<open>requestApproval\<close> without a callback, and the
  runtime's \<^verbatim>\<open>TypeError\<close> for calling a value that is not a function.
\<close>

datatype feed_error =
    InvalidInterval
  | InvalidTimestamp
  | NoFeedingHistory
  | ApprovalRequired approval_request
  | NotAFunction

text \<open>
  \<^verbatim>\<open>new Date(v)\<close> on a time value: the fraction of a millisecond is cut off, toward
  zero.
\<close>

definition new_Date :: "rat \<Rightarrow> instant" where
  "new_Date v = (if v \<ge> 0 then \<lfloor>v\<rfloor> else \<lceil>v\<rceil>)"

text \<open>\<^verbatim>\<open>clearTimeout\<close> and \<^verbatim>\<open>setTimeout\<close> of the runtime, at clock reading \<open>now\<close>.\<close>

definition clearTimeout :: "nat \<Rightarrow> feed_state \<Rightarrow> feed_state" where
  "clearTimeout h st =
     st\<lparr>timers := filter (\<lambda>(k, t). k \<noteq> h) (timers st),
        effects := effects st @ [TimerCleared h]\<rparr>"

definition setTimeout :: "string \<Rightarrow> int \<Rightarrow> instant \<Rightarrow> feed_state \<Rightarrow> nat \<times> feed_state" where
  "setTimeout c delay now st =
     (next_handle st,
      st\<lparr>timers := timers st @ [(next_handle st, \<lparr>fires_at = now + delay, timer_coop = c\<rparr>)],
         next_handle := next_handle st + 1,
         effects := effects st @ [TimerArmed (next_handle st) c (now + delay)]\<rparr>)"

text \<open>The module-level function \<^verbatim>\<open>scheduleReminder(coopId, feedTime)\<close>.\<close>

definition scheduleReminder :: "string \<Rightarrow> instant \<Rightarrow> instant \<Rightarrow> feed_state \<Rightarrow> bool \<times> feed_state" where
  "scheduleReminder c feedTime now st =
     (let st1 = (case scheduledReminders st c of
                   None \<Rightarrow> st
                 | Some existing \<Rightarrow> clearTimeout existing st);
          timeUntil = feedTime - now
      in if timeUntil \<le> 0 then (False, st1)
         else
           (let (timeout, st2) = setTimeout c (min timeUntil 2147483647) now st1
            in (True, st2\<lparr>scheduledReminders := (scheduledReminders st2)(c \<mapsto> timeout)\<rparr>)))"

definition requestApproval :: "approval_request \<Rightarrow> feed_state \<Rightarrow> (feed_error + bool) \<times> feed_state" where
  "requestApproval request st =
     (case approvalCallback st of
        Some callback \<Rightarrow> (Inr (callback request), st\<lparr>effects := effects st @ [GateCalled request]\<rparr>)
      | None \<Rightarrow> (Inl (ApprovalRequired request), st))"


text \<open>The timer's callback for coop \<open>c\<close>, when the timer with handle \<open>h\<close> comes due.\<close>

definition reminder_fires :: "nat \<Rightarrow> string \<Rightarrow> feed_state \<Rightarrow> feed_state" where
  "reminder_fires h c st =
     st\<lparr>timers := filter (\<lambda>(k, t). k \<noteq> h) (timers st),
        scheduledReminders := (scheduledReminders st)(c := None)\<rparr>"

text \<open>
  The record \<^verbatim>\<open>execute\<close> works on. \<^verbatim>\<open>if (lastFedAt)\<close> takes a missing and an empty
  string alike as not supplied. \<open>Date_parse\<close> is the runtime's parser: the time value of
  \<^verbatim>\<open>new Date(lastFedAt)\<close>, \<open>None\<close> when it is \<^verbatim>\<open>NaN\<close>.
\<close>

definition stored_record :: "string \<Rightarrow> feed_state \<Rightarrow> (feed_error + FeedingRecord) \<times> feed_state" where
  "stored_record c st =
     (case feedingRecords st c of
        None \<Rightarrow> (Inl NoFeedingHistory, st)
      | Some rec \<Rightarrow> (Inr rec, st))"

definition current_record ::
  "(string \<Rightarrow> instant option) \<Rightarrow> string option \<Rightarrow> rat \<Rightarrow> string \<Rightarrow> feed_state
     \<Rightarrow> (feed_error + FeedingRecord) \<times> feed_state" where
  "current_record Date_parse lastFedAt_in intervalHours_in coopId_in st =
     (case lastFedAt_in of
        None \<Rightarrow> stored_record coopId_in st
      | Some s \<Rightarrow>
          if s = [] then stored_record coopId_in st
          else
            (case Date_parse s of
               None \<Rightarrow> (Inl InvalidTimestamp, st)
             | Some fedTime \<Rightarrow>
                 (let nextTime = new_Date (of_int fedTime + intervalHours_in * 60 * 60 * 1000);
                      rec = \<lparr>FeedingRecord.lastFedAt = fedTime, nextFeedAt = nextTime, coopId = coopId_in,
                             intervalHours = intervalHours_in\<rparr>
                  in (Inr rec, st\<lparr>feedingRecords := (feedingRecords st)(coopId_in \<mapsto> rec)\<rparr>))))"

definition status_notice :: "instant \<Rightarrow> FeedingRecord \<Rightarrow> rat \<Rightarrow> notice" where
  "status_notice now rec intervalHours_in =
     (let isDue = (now \<ge> nextFeedAt rec);
          timeUntilNext = nextFeedAt rec - now;
          hoursUntilNext = max 0 (of_int timeUntilNext / (60 * 60 * 1000))
      in if isDue then
           (let overdueMins = (now - nextFeedAt rec) div 60000
            in if overdueMins > 60 then Overdue (overdueMins div 60) (overdueMins mod 60)
               else DueNow intervalHours_in)
         else if hoursUntilNext < 1 then PrepareSoon \<lceil>hoursUntilNext * 60\<rceil>
         else OnSchedule hoursUntilNext)"

text \<open>
  \<^verbatim>\<open>feedScheduleTool.execute\<close>, with the schema's defaults already applied to the
  input; \<open>now\<close> is the reading of \<^verbatim>\<open>new Date()\<close>.

  The first statement of the body is
  \<^verbatim>\<open>const { lastFedAt, intervalHours, scheduleReminder, coopId } = context\<close>,
  so inside \<^verbatim>\<open>execute\<close> the name \<^verbatim>\<open>scheduleReminder\<close> is the boolean input, which
  hides the module-level function of that name. Both call expressions
  \<^verbatim>\<open>scheduleReminder(coopId, record.nextFeedAt)\<close> are reached only when that boolean is
  \<^verbatim>\<open>true\<close>; applying it throws the runtime's \<^verbatim>\<open>TypeError\<close> before
  \<^verbatim>\<open>reminderScheduled\<close> is assigned or the message is extended.
\<close>

definition feedSchedule ::
  "(string \<Rightarrow> instant option) \<Rightarrow> string option \<Rightarrow> rat \<Rightarrow> bool \<Rightarrow> string \<Rightarrow> instant
     \<Rightarrow> feed_state \<Rightarrow> (feed_error + feed_result) \<times> feed_state" where
  "feedSchedule Date_parse lastFedAt_in intervalHours_in scheduleReminder_in coopId_in now st =
     (if intervalHours_in < 1 \<or> intervalHours_in > 48 then (Inl InvalidInterval, st)
      else
        (case current_record Date_parse lastFedAt_in intervalHours_in coopId_in st of
           (Inl e, st1) \<Rightarrow> (Inl e, st1)
         | (Inr rec, st1) \<Rightarrow>
             (let isDue = (now \<ge> nextFeedAt rec);
                  msg = [status_notice now rec intervalHours_in];
                  result = (\<lambda>m r. \<lparr>feed_result.lastFedAt = FeedingRecord.lastFedAt rec,
                                     nextAt = nextFeedAt rec, due = isDue, message = m,
                                     reminderScheduled = r\<rparr>)
              in if scheduleReminder_in \<and> \<not> isDue then
                   (if intervalHours_in < 6 then
                      (case requestApproval
                              \<lparr>action = ''schedule_reminder'',
                               reason = ShortInterval intervalHours_in,
                               coopId = coopId_in, intervalHours = intervalHours_in\<rparr> st1 of
                         (Inl e, st2) \<Rightarrow> (Inl e, st2)
                       | (Inr approved, st2) \<Rightarrow>
                           if \<not> approved
                           then (Inr (result (msg @ [ReminderNotScheduled]) False), st2)
                           else (Inl NotAFunction, st2))
                    else (Inl NotAFunction, st1))
                 else (Inr (result msg False), st1))))"

text \<open>
  The instant of a date-time text of the form \<^verbatim>\<open>YYYY-MM-DDTHH:mm:ssZ\<close>, by the
  calendar arithmetic of the language standard (days from the year, then from the month).
  It stands for the runtime's parser on texts of this form and on the empty text, in the
  examples; it accepts nothing else.
\<close>

definition leap_year :: "int \<Rightarrow> bool" where
  "leap_year y = ((y mod 4 = 0 \<and> y mod 100 \<noteq> 0) \<or> y mod 400 = 0)"

definition day_from_year :: "int \<Rightarrow> int" where
  "day_from_year y =
     365 * (y - 1970) + (y - 1969) div 4 - (y - 1901) div 100 + (y - 1601) div 400"

definition days_in_month :: "int \<Rightarrow> int \<Rightarrow> int" where
  "days_in_month y m =
     (if m = 2 then (if leap_year y then 29 else 28)
      else if m \<in> {4, 6, 9, 11} then 30 else 31)"

definition day_in_year :: "int \<Rightarrow> int \<Rightarrow> int" where
  "day_in_year y m = (\<Sum>k \<leftarrow> [1..<nat m]. days_in_month y (int k))"

definition utc_instant :: "int \<Rightarrow> int \<Rightarrow> int \<Rightarrow> int \<Rightarrow> int \<Rightarrow> int \<Rightarrow> instant option" where
  "utc_instant y m d hh mm ss =
     (if 1 \<le> m \<and> m \<le> 12 \<and> 1 \<le> d \<and> d \<le> days_in_month y m
         \<and> hh \<le> 23 \<and> mm \<le> 59 \<and> ss \<le> 59
      then Some ((((day_from_year y + day_in_year y m + (d - 1)) * 24 + hh) * 60 + mm) * 60 * 1000
                 + ss * 1000)
      else None)"

definition number_of :: "string \<Rightarrow> int option" where
  "number_of ds = map_option int (digits_val 0 ds)"

fun iso_utc :: "string \<Rightarrow> instant option" where
  "iso_utc [y1, y2, y3, y4, a, m1, m2, b, d1, d2, t, h1, h2, c, n1, n2, e, s1, s2, z] =
     (if a = CHR ''-'' \<and> b = CHR ''-'' \<and> t = CHR ''T'' \<and> c = CHR '':'' \<and> e = CHR '':''
         \<and> z = CHR ''Z''
      then
        (case (number_of [y1, y2, y3, y4], number_of [m1, m2], number_of [d1, d2],
               number_of [h1, h2], number_of [n1, n2], number_of [s1, s2]) of
           (Some y, Some m, Some d, Some hh, Some mm, Some ss) \<Rightarrow> utc_instant y m d hh mm ss
         | _ \<Rightarrow> None)
      else None)"
| "iso_utc s = None"


section \<open>Inputs used in the examples\<close>

text \<open>
  A request the tool refuses (the payload 0 is falsy), then one hundred and one events
  numbered by their payload: the first fifty through the dispatcher's helper, the others
  through the tool.
\<close>

definition store_requests :: "store_op list" where
  "store_requests =
     ToolStore (Some ''sensors/temp'') (Some (JNum 0)) None 0
     # map (\<lambda>i. AddSensorData ''sensors/temp'' (JNum (of_nat i)) ''reading'' (int i)) [0..<50]
     @ map (\<lambda>i. ToolStore (Some ''sensors/temp'') (Some (JNum (of_nat i))) None (int i)) [50..<101]"

text \<open>A reading of temperature \<open>t\<close> published on topic \<open>tp\<close> at instant \<open>ts\<close>.\<close>

definition reading_event :: "string \<Rightarrow> rat \<Rightarrow> instant \<Rightarrow> SensorEntry" where
  "reading_event tp t ts =
     \<lparr>SensorEntry.topic = tp, data = JObj [(''temperature'', JNum t)], timestamp = ts,
      analysis = ''Received telemetry message''\<rparr>"

text \<open>Noon, both random draws one half.\<close>

definition env0 :: sim_input where
  "env0 = \<lparr>hour = 12, random1 = 1 / 2, random2 = 1 / 2, sim_now = 1060000\<rparr>"

text \<open>
  The module state after a call accepted at 1000 seconds, and three further calls, for
  different coops, 1, 2 and 4 seconds later.
\<close>

definition accepted_at_1000s :: temp_state where
  "accepted_at_1000s = \<lparr>tempCache = Map.empty, lastCallTime = 1000000\<rparr>"

definition three_attempts :: "temp_call list" where
  "three_attempts =
     [(35, 95, ''main'', 1001000, 1001000, env0, []),
      (35, 95, ''barn'', 1002000, 1002000, env0, []),
      (40, 90, ''main'', 1004000, 1004000, env0, [])]"

text \<open>
  A subscription to \<^verbatim>\<open>sensors/#\<close> with the filter \<^verbatim>\<open>{type: "temp"}\<close>; a parser for
  messages that are not JSON; the annotation and the clock of the example.
\<close>

definition typed_sub :: Subscription where
  "typed_sub = \<lparr>topic = ''sensors/#'', qos = 1, filter_sub = Some [(''type'', JStr ''temp'')],
                paused = False\<rparr>"

definition not_json :: "string \<Rightarrow> json option" where
  "not_json raw = None"

definition annotate0 :: "string \<Rightarrow> json \<Rightarrow> string" where
  "annotate0 tp p = ''Received telemetry message from sensors''"

definition clock0 :: "string \<Rightarrow> instant" where
  "clock0 k = 1000000"

text \<open>
  A parser that knows one JSON text, and three subscriptions that match the topic
  \<^verbatim>\<open>sensors/a\<close>: the first filters on \<^verbatim>\<open>type = "temp"\<close>, the second on
  \<^verbatim>\<open>type = "hum"\<close>, the third has no filter.
\<close>

definition temp_json :: "string \<Rightarrow> json option" where
  \<open>temp_json raw =
     (if raw = ''{"type":"temp","v":3}'' then Some (JObj [(''type'', JStr ''temp''), (''v'', JNum 3)])
      else None)\<close>

definition three_subs :: "(string \<times> Subscription) list" where
  "three_subs =
     [(''sensors/#'', typed_sub),
      (''sensors/+'', \<lparr>topic = ''sensors/+'', qos = 1,
                       filter_sub = Some [(''type'', JStr ''hum'')], paused = False\<rparr>),
      (''#'', \<lparr>topic = ''#'', qos = 0, filter_sub = None, paused = False\<rparr>)]"

text \<open>
  A store with one reading of 72 degrees; a parser that knows the JSON text \<^verbatim>\<open>null\<close>;
  the store after the dispatcher, with an unfiltered subscription to \<^verbatim>\<open>#\<close>, has
  handled the message \<^verbatim>\<open>null\<close> on the topic \<^verbatim>\<open>sensors/temp\<close>.
\<close>

definition one_reading :: sensorMemoryStore where
  "one_reading = [reading_event ''coop/main/temperature'' 72 990000]"

definition null_json :: "string \<Rightarrow> json option" where
  "null_json raw = (if raw = ''null'' then Some JNull else None)"

definition store_with_null :: sensorMemoryStore where
  "store_with_null =
     handleMessage null_json annotate0 clock0
       [(''#'', \<lparr>topic = ''#'', qos = 0, filter_sub = None, paused = False\<rparr>)]
       ''sensors/temp'' ''null'' one_reading"



text \<open>
  The feed scheduler's state after \<^verbatim>\<open>report("main", lastFedAt = "2024-01-15T00:00:00Z",
  intervalHours = 12)\<close>, called one hour after that feeding.
\<close>

definition fed_at_midnight :: feed_state where
  "fed_at_midnight =
     snd (feedSchedule iso_utc (Some ''2024-01-15T00:00:00Z'') 12 False ''main'' 1705280400000
            initial_feed_state)"

text \<open>The initial state with an approval callback that approves, and one that denies.\<close>

definition approving_gate :: feed_state where
  "approving_gate = setApprovalCallback (\<lambda>request. True) initial_feed_state"

definition denying_gate :: feed_state where
  "denying_gate = setApprovalCallback (\<lambda>request. False) initial_feed_state"

section \<open>The shared event store is a window of the last hundred events\<close>

lemma length_push_and_trim:
  "length s \<le> 100 \<Longrightarrow> length (push_and_trim e s) \<le> 100"
  by (simp add: push_and_trim_def Let_def)

lemma push_and_trim_window:
  "push_and_trim e (drop (length xs - 100) xs) = drop (length (xs @ [e]) - 100) (xs @ [e])"
proof (cases "length xs < 100")
  case True
  then show ?thesis by (simp add: push_and_trim_def Let_def)
next
  case False
  define n where "n = length xs - 100"
  have len: "length (drop n xs) = 100" and ne: "drop n xs \<noteq> []" and le: "Suc n \<le> length xs"
    using False by (auto simp: n_def)
  have "push_and_trim e (drop n xs) = tl (drop n xs @ [e])"
    using len by (simp add: push_and_trim_def Let_def)
  also have "\<dots> = tl (drop n xs) @ [e]"
    using ne by simp
  also have "\<dots> = drop (Suc n) xs @ [e]"
    by (simp add: drop_Suc tl_drop)
  also have "\<dots> = drop (Suc n) (xs @ [e])"
    using le by simp
  also have "Suc n = length (xs @ [e]) - 100"
    using False by (simp add: n_def)
  finally show ?thesis by (simp add: n_def)
qed

lemma store_action_snd:
  "snd (store_action tp d an now s) =
     (case stored_entry (ToolStore tp d an now) of None \<Rightarrow> s | Some e \<Rightarrow> push_and_trim e s)"
  by (cases tp; cases d) (auto simp: store_action_def Let_def split: option.splits)

lemma store_action_fst:
  "fst (store_action tp d an now s) =
     (case stored_entry (ToolStore tp d an now) of
        None \<Rightarrow> (False, None)
      | Some e \<Rightarrow> (True, Some (length (push_and_trim e s))))"
  by (cases tp; cases d) (auto simp: store_action_def Let_def split: option.splits)

lemma apply_store_op_eq:
  "apply_store_op s x = (case stored_entry x of None \<Rightarrow> s | Some e \<Rightarrow> push_and_trim e s)"
proof (cases x)
  case (ToolStore tp d an now)
  then show ?thesis by (simp only: apply_store_op.simps store_action_snd)
qed (simp_all add: addSensorData_def)

lemma stored_entries_snoc:
  "stored_entries (ops @ [x]) =
     (case stored_entry x of None \<Rightarrow> stored_entries ops | Some e \<Rightarrow> stored_entries ops @ [e])"
  by (simp add: stored_entries_def List.map_filter_def split: option.splits)

lemma run_store_ops_window:
  "run_store_ops ops [] = drop (length (stored_entries ops) - 100) (stored_entries ops)"
proof (induction ops rule: rev_induct)
  case Nil
  show ?case by (simp add: run_store_ops_def stored_entries_def List.map_filter_def)
next
  case (snoc x ops)
  show ?case
  proof (cases "stored_entry x")
    case None
    then show ?thesis
      using snoc by (simp add: run_store_ops_def apply_store_op_eq stored_entries_snoc)
  next
    case (Some e)
    then show ?thesis
      using snoc push_and_trim_window [of e "stored_entries ops"]
      by (simp add: run_store_ops_def apply_store_op_eq stored_entries_snoc)
  qed
qed

lemma stored_entries_append:
  "stored_entries (xs @ ys) = stored_entries xs @ stored_entries ys"
  by (simp add: stored_entries_def List.map_filter_def)

lemma stored_entries_adds:
  "stored_entries (map (\<lambda>i. AddSensorData (t i) (d i) (a i) (n i)) xs)
     = map (\<lambda>i. \<lparr>SensorEntry.topic = t i, data = d i, timestamp = n i, analysis = a i\<rparr>) xs"
  by (induction xs) (simp_all add: stored_entries_def List.map_filter_def)

lemma stored_entries_tool:
  "t \<noteq> [] \<Longrightarrow> \<forall>i \<in> set xs. truthy (d i) \<Longrightarrow>
   stored_entries (map (\<lambda>i. ToolStore (Some t) (Some (d i)) None (n i)) xs)
     = map (\<lambda>i. \<lparr>SensorEntry.topic = t, data = d i, timestamp = n i,
                   analysis = ''No analysis provided''\<rparr>) xs"
  by (induction xs) (simp_all add: stored_entries_def List.map_filter_def)

lemma stored_entries_requests:
  "stored_entries store_requests =
     map (\<lambda>i. \<lparr>SensorEntry.topic = ''sensors/temp'', data = JNum (of_nat i), timestamp = int i,
                 analysis = ''reading''\<rparr>) [0..<50]
     @ map (\<lambda>i. \<lparr>SensorEntry.topic = ''sensors/temp'', data = JNum (of_nat i), timestamp = int i,
                   analysis = ''No analysis provided''\<rparr>) [50..<101]"
proof -
  have refused: "stored_entries [ToolStore (Some ''sensors/temp'') (Some (JNum 0)) None 0] = []"
    by (simp add: stored_entries_def List.map_filter_def)
  have truthy: "\<forall>i \<in> set [50..<101]. truthy (JNum (of_nat i))"
    by simp
  have tool: "stored_entries
          (map (\<lambda>i. ToolStore (Some ''sensors/temp'') (Some (JNum (of_nat i))) None (int i)) [50..<101])
        = map (\<lambda>i. \<lparr>SensorEntry.topic = ''sensors/temp'', data = JNum (of_nat i), timestamp = int i,
                   analysis = ''No analysis provided''\<rparr>) [50..<101]"
    using stored_entries_tool [of "''sensors/temp''" "[50..<101]" "\<lambda>i. JNum (of_nat i)" int] truthy
    by simp
  have split: "store_requests =
     [ToolStore (Some ''sensors/temp'') (Some (JNum 0)) None 0]
     @ map (\<lambda>i. AddSensorData ''sensors/temp'' (JNum (of_nat i)) ''reading'' (int i)) [0..<50]
     @ map (\<lambda>i. ToolStore (Some ''sensors/temp'') (Some (JNum (of_nat i))) None (int i)) [50..<101]"
    by (simp add: store_requests_def)
  show ?thesis
    unfolding split stored_entries_append refused tool
    by (simp add: stored_entries_adds)
qed

text \<open>
  Claim C3. Whatever operations reach the store, starting from the empty store of a fresh
  process, it never holds more than 100 events: it holds the last 100 of the events that
  the operations were asked to store, in the order in which they came. After 101 such
  events exactly 100 are left, namely all but the first. The witness stores 101 numbered
  events, through the helper and through the tool, after a request that the tool refuses.
\<close>

theorem store_bounded_fifo:
  "length (run_store_ops ops []) \<le> 100
   \<and> run_store_ops ops [] = drop (length (stored_entries ops) - 100) (stored_entries ops)
   \<and> (length (stored_entries ops) = 101 \<longrightarrow>
        length (run_store_ops ops []) = 100
        \<and> run_store_ops ops [] = tl (stored_entries ops))"
  by (simp add: run_store_ops_window drop_Suc)

theorem store_bounded_fifo_witness:
  "length (stored_entries store_requests) = 101
   \<and> length (run_store_ops store_requests []) = 100
   \<and> run_store_ops store_requests [] = tl (stored_entries store_requests)
   \<and> map data (run_store_ops store_requests []) = map (\<lambda>i. JNum (of_nat i)) [1..<101]"
proof -
  have len: "length (stored_entries store_requests) = 101"
    by (simp add: stored_entries_requests)
  from store_bounded_fifo [of store_requests] len
  have run: "length (run_store_ops store_requests []) = 100
      \<and> run_store_ops store_requests [] = tl (stored_entries store_requests)"
    by blast
  have "map data (stored_entries store_requests) = map (\<lambda>i. JNum (of_nat i)) ([0..<50] @ [50..<101])"
    by (simp add: stored_entries_requests comp_def)
  also have "[0..<50] @ [50..<101] = [0..<101]"
    by (simp add: upt_add_eq_append [of 0 50 51, simplified])
  also have "[0..<101] = 0 # [1..<101]"
    by (simp add: upt_conv_Cons)
  finally have all: "map data (stored_entries store_requests)
                       = map (\<lambda>i. JNum (of_nat i)) (0 # [1..<101])" .
  have "map data (tl (stored_entries store_requests)) = tl (map data (stored_entries store_requests))"
    by (simp add: map_tl)
  also have "\<dots> = map (\<lambda>i. JNum (of_nat i)) [1..<101]"
    unfolding all by simp
  finally show ?thesis using len run by simp
qed

section \<open>The topic matcher\<close>

lemma topicMatches_listed:
  "topicMatches ''a/b/c'' ''a/b/c'' \<and> topicMatches ''a/b/c'' ''a/+/c''
   \<and> topicMatches ''a/b/c'' ''a/#'' \<and> topicMatches ''a/b/c'' ''#''
   \<and> \<not> topicMatches ''a/b/c'' ''a/b'' \<and> \<not> topicMatches ''a/b/c'' ''a/b/c/d''
   \<and> \<not> topicMatches ''a/b/c'' ''x/+/c''"
  by (simp add: topicMatches_def topicMatches_from.simps)

lemma topicMatches_from_no_hash:
  "''#'' \<notin> set (drop i subParts) \<Longrightarrow> topicMatches_from actualParts subParts i
     \<Longrightarrow> length actualParts = length subParts"
proof (induction actualParts subParts i rule: topicMatches_from.induct)
  case (1 actualParts subParts i)
  show ?case
  proof (cases "i < length subParts")
    case False
    with "1.prems"(2) show ?thesis by (simp add: topicMatches_from.simps)
  next
    case True
    then have d: "drop i subParts = subParts ! i # drop (Suc i) subParts"
      by (simp add: Cons_nth_drop_Suc)
    with "1.prems"(1) have nh: "subParts ! i \<noteq> ''#''" and rest: "''#'' \<notin> set (drop (i + 1) subParts)"
      by auto
    show ?thesis
    proof (cases "subParts ! i = ''+''")
      case plus: True
      with True nh "1.prems"(2) have "topicMatches_from actualParts subParts (i + 1)"
        by (simp add: topicMatches_from.simps [of actualParts subParts i])
      then show ?thesis using "1.IH"(1) [OF True nh plus rest] by simp
    next
      case lit: False
      with True nh "1.prems"(2)
      have ok: "\<not> (length actualParts \<le> i \<or> subParts ! i \<noteq> actualParts ! i)"
        and nxt: "topicMatches_from actualParts subParts (i + 1)"
        by (auto simp: topicMatches_from.simps [of actualParts subParts i] split: if_splits)
      from "1.IH"(2) [OF True nh lit ok rest nxt] show ?thesis .
    qed
  qed
qed

text \<open>
  Claim C2. The listed examples come out as the claim says (\<open>topicMatches_listed\<close>), and
  a pattern without any \<^verbatim>\<open>#\<close> matches only topics of its own length
  (\<open>topicMatches_from_no_hash\<close>). But the loop passes over a \<^verbatim>\<open>+\<close> without looking
  whether the topic has a segment at that index, so a \<^verbatim>\<open>+\<close> that is followed by
  \<^verbatim>\<open>#\<close> also matches no segment at all: the topic \<^verbatim>\<open>a\<close>, of one segment, matches
  the pattern \<^verbatim>\<open>a/+/#\<close>.
\<close>

theorem topicMatches_plus_without_segment:
  "split_on CHR ''/'' ''a'' = [''a'']
   \<and> split_on CHR ''/'' ''a/+/#'' = [''a'', ''+'', ''#'']
   \<and> topicMatches ''a'' ''a/+/#''"
  by (simp add: topicMatches_def topicMatches_from.simps)


section \<open>The temperature safety evaluator\<close>

lemma temperature_of_fault: "temperature_of d = Inl f \<longleftrightarrow> d = JNull"
  by (cases d) (simp_all, cases f, simp)

lemma temp_entries_filter:
  "\<forall>e \<in> set es. includes_str (SensorEntry.topic e) ''temp'' \<longrightarrow> data e \<noteq> JNull \<Longrightarrow>
   temp_entries es =
     Inr (filter (\<lambda>e. includes_str (SensorEntry.topic e) ''temp''
                      \<and> (\<exists>t. temperature_of (data e) = Inr (Some t))) es)"
proof (induction es)
  case Nil
  show ?case by simp
next
  case (Cons e es)
  then have IH: "temp_entries es =
     Inr (filter (\<lambda>e. includes_str (SensorEntry.topic e) ''temp''
                      \<and> (\<exists>t. temperature_of (data e) = Inr (Some t))) es)"
    by simp
  show ?case
  proof (cases "includes_str (SensorEntry.topic e) ''temp''")
    case False
    then show ?thesis using IH by simp
  next
    case True
    with Cons.prems have "data e \<noteq> JNull" by simp
    then obtain v where v: "temperature_of (data e) = Inr v"
      by (cases "temperature_of (data e)") (auto simp: temperature_of_fault)
    show ?thesis using True v IH by (cases v) simp_all
  qed
qed

lemma temp_entries_fault:
  "temp_entries es = Inl f \<Longrightarrow>
   \<exists>e \<in> set es. includes_str (SensorEntry.topic e) ''temp'' \<and> data e = JNull"
  by (induction es) (auto simp: temperature_of_fault split: if_splits sum.splits)

lemma newest_first_set: "set (newest_first es) = set es"
  by (simp add: newest_first_def)

lemma newest_first_Nil: "newest_first es = [] \<longleftrightarrow> es = []"
  by (metis newest_first_set set_empty)

lemma newest_first_head:
  assumes "newest_first es = latest # rest"
  shows "latest \<in> set es \<and> (\<forall>e \<in> set es. SensorEntry.timestamp e \<le> SensorEntry.timestamp latest)"
proof -
  have s: "sorted (map (\<lambda>e. - SensorEntry.timestamp e) (newest_first es))"
    by (simp add: newest_first_def)
  have mem: "set (latest # rest) = set es"
    using assms newest_first_set [of es] by simp
  from s assms have "\<forall>e \<in> set rest. - SensorEntry.timestamp latest \<le> - SensorEntry.timestamp e"
    by simp
  with mem show ?thesis by auto
qed

lemma fetch_ignores_coop: "fetchFromSharedMemory c store = fetchFromSharedMemory c' store"
  by (simp add: fetchFromSharedMemory_def)

lemma fetch_no_fault:
  assumes "\<forall>e \<in> set store. includes_str (SensorEntry.topic e) ''temp'' \<longrightarrow> data e \<noteq> JNull"
  shows "\<exists>r. fetchFromSharedMemory c store = Inr r"
proof -
  let ?P = "\<lambda>e. includes_str (SensorEntry.topic e) ''temp''
                      \<and> (\<exists>t. temperature_of (data e) = Inr (Some t))"
  have te: "temp_entries store = Inr (filter ?P store)"
    using assms by (rule temp_entries_filter)
  show ?thesis
  proof (cases "newest_first (filter ?P store)")
    case Nil
    then show ?thesis using te by (simp add: fetchFromSharedMemory_def getSensorData_def)
  next
    case (Cons latest rest)
    then have "latest \<in> set (filter ?P store)"
      using newest_first_head by blast
    then obtain t where "temperature_of (data latest) = Inr (Some t)" by auto
    then show ?thesis using te Cons by (simp add: fetchFromSharedMemory_def getSensorData_def)
  qed
qed



lemma coopTempAlert_limited:
  "now - lastCallTime st < RATE_LIMIT_INTERVAL \<Longrightarrow>
   coopTempAlert coerce minSafe maxSafe c now now_read env store st =
     (Inl (RateLimited \<lceil>of_int (RATE_LIMIT_INTERVAL - (now - lastCallTime st)) / (1000 :: rat)\<rceil>), st)"
  by (simp add: coopTempAlert_def)

lemma coopTempAlert_accepted:
  "\<not> now - lastCallTime st < RATE_LIMIT_INTERVAL \<Longrightarrow>
   coopTempAlert coerce minSafe maxSafe c now now_read env store st =
     (case getLatestTemperature c now_read env store (st\<lparr>lastCallTime := now\<rparr>) of
        (Inl f, st2) \<Rightarrow> (Inl (Fault f), st2)
      | (Inr reading, st2) \<Rightarrow> (Inr (classify coerce minSafe maxSafe now reading), st2))"
  by (simp add: coopTempAlert_def Let_def)


lemma coopTempAlert_accepted_not_limited:
  assumes "\<not> now - lastCallTime st < RATE_LIMIT_INTERVAL"
  shows "fst (coopTempAlert coerce minSafe maxSafe c now now_read env store st) \<noteq> Inl (RateLimited w)"
proof -
  obtain r st2 where g: "getLatestTemperature c now_read env store (st\<lparr>lastCallTime := now\<rparr>) = (r, st2)"
    by (cases "getLatestTemperature c now_read env store (st\<lparr>lastCallTime := now\<rparr>)")
  show ?thesis
    using assms g by (cases r) (simp_all add: coopTempAlert_accepted)
qed



lemma classify_status:
  "(now - TempReading.timestamp reading > 2 * 60 * 1000 \<longrightarrow>
      status (classify coerce minSafe maxSafe now reading) = STALE)
   \<and> (\<forall>t. now - TempReading.timestamp reading \<le> 2 * 60 * 1000 \<and> temperature reading = JNum t \<longrightarrow>
          (t < minSafe \<longrightarrow> status (classify coerce minSafe maxSafe now reading) = LOW)
        \<and> (minSafe \<le> maxSafe \<and> maxSafe < t \<longrightarrow> status (classify coerce minSafe maxSafe now reading) = HIGH)
        \<and> (minSafe \<le> maxSafe \<and> (t = minSafe \<or> t = maxSafe) \<longrightarrow>
              status (classify coerce minSafe maxSafe now reading) = OK))"
  by (auto simp: classify_def Let_def STALE_DATA_THRESHOLD_def to_number_def num_lt_def num_gt_def)

lemma getLatestTemperature_first_reading:
  "getLatestTemperature c now env [reading_event tp t ts] initial_temp_state =
     (if includes_str tp ''temp''
      then (Inr \<lparr>temperature = JNum t, timestamp = ts, source = ''mqtt-shared-memory''\<rparr>,
            \<lparr>tempCache = [c \<mapsto> \<lparr>temperature = JNum t, timestamp = ts, source = ''mqtt-shared-memory''\<rparr>],
             lastCallTime = 0\<rparr>)
      else (Inr (generateSimulatedReading env),
            \<lparr>tempCache = [c \<mapsto> generateSimulatedReading env], lastCallTime = 0\<rparr>))"
  by (simp add: getLatestTemperature_def fresh_cached_def initial_temp_state_def
        fetchFromSharedMemory_def getSensorData_def reading_event_def newest_first_def Let_def)

lemma coopTempAlert_first_reading:
  "5000 \<le> now \<Longrightarrow> includes_str tp ''temp'' \<Longrightarrow>
   coopTempAlert coerce minSafe maxSafe c now now_read env [reading_event tp t ts] initial_temp_state =
     (Inr (classify coerce minSafe maxSafe now
             \<lparr>temperature = JNum t, timestamp = ts, source = ''mqtt-shared-memory''\<rparr>),
      \<lparr>tempCache = [c \<mapsto> \<lparr>temperature = JNum t, timestamp = ts, source = ''mqtt-shared-memory''\<rparr>],
       lastCallTime = now\<rparr>)"
  by (simp add: coopTempAlert_def getLatestTemperature_def fresh_cached_def initial_temp_state_def
        RATE_LIMIT_INTERVAL_def fetchFromSharedMemory_def getSensorData_def reading_event_def
        newest_first_def Let_def)

text \<open>
  Claim C4. Every result of the tool is the classification of the reading that
  \<^verbatim>\<open>getLatestTemperature\<close> returned: a reading older than two minutes is \<open>STALE\<close>
  whatever its value; otherwise a numeric reading strictly below \<open>minSafe\<close> is \<open>LOW\<close>
  and, for a range with \<open>minSafe \<le> maxSafe\<close>, one strictly above \<open>maxSafe\<close> is
  \<open>HIGH\<close> and one equal to either bound is \<open>OK\<close>. The witness runs the tool on the
  three examples of the claim (98 and 95 at an age of 60 seconds, and an age of 150
  seconds, against the range 35 to 95).
\<close>

theorem checkSafety_classification:
  assumes "coopTempAlert coerce minSafe maxSafe c now now_read env store st = (Inr res, st')"
  shows "\<exists>reading.
           getLatestTemperature c now_read env store (st\<lparr>lastCallTime := now\<rparr>) = (Inr reading, st')
         \<and> current res = temperature reading
         \<and> (now - TempReading.timestamp reading > 2 * 60 * 1000 \<longrightarrow> status res = STALE)
         \<and> (\<forall>t. now - TempReading.timestamp reading \<le> 2 * 60 * 1000 \<and> temperature reading = JNum t \<longrightarrow>
                (t < minSafe \<longrightarrow> status res = LOW)
              \<and> (minSafe \<le> maxSafe \<and> maxSafe < t \<longrightarrow> status res = HIGH)
              \<and> (minSafe \<le> maxSafe \<and> (t = minSafe \<or> t = maxSafe) \<longrightarrow> status res = OK))"
proof -
  have acc: "\<not> now - lastCallTime st < RATE_LIMIT_INTERVAL"
    using assms by (auto simp: coopTempAlert_def)
  obtain r st2 where g: "getLatestTemperature c now_read env store (st\<lparr>lastCallTime := now\<rparr>) = (r, st2)"
    by (cases "getLatestTemperature c now_read env store (st\<lparr>lastCallTime := now\<rparr>)")
  from assms acc g obtain reading where r: "r = Inr reading" and st2: "st2 = st'"
    and res: "res = classify coerce minSafe maxSafe now reading"
    by (cases r) (auto simp: coopTempAlert_accepted)
  have cur: "current res = temperature reading"
    by (simp add: res classify_def Let_def)
  show ?thesis
    using g r st2 cur classify_status [of now reading coerce minSafe maxSafe]
    unfolding res by blast
qed

theorem checkSafety_classification_witness:
  "(\<exists>res st'. coopTempAlert (\<lambda>v. None) 35 95 ''main'' 1060000 1060000 env0
                  [reading_event ''coop/main/temperature'' 98 1000000] initial_temp_state = (Inr res, st')
              \<and> status res = HIGH)
   \<and> (\<exists>res st'. coopTempAlert (\<lambda>v. None) 35 95 ''main'' 1060000 1060000 env0
                  [reading_event ''coop/main/temperature'' 95 1000000] initial_temp_state = (Inr res, st')
              \<and> status res = OK)
   \<and> (\<exists>res st'. coopTempAlert (\<lambda>v. None) 35 95 ''main'' 1150000 1150000 env0
                  [reading_event ''coop/main/temperature'' 98 1000000] initial_temp_state = (Inr res, st')
              \<and> status res = STALE)"
proof -
  have tp: "includes_str ''coop/main/temperature'' ''temp''" by simp
  have st0: "initial_temp_state\<lparr>lastCallTime := n\<rparr> = \<lparr>tempCache = Map.empty, lastCallTime = n\<rparr>" for n
    by (simp add: initial_temp_state_def)
  have read: "getLatestTemperature ''main'' n env0 [reading_event ''coop/main/temperature'' t 1000000]
                 \<lparr>tempCache = Map.empty, lastCallTime = m\<rparr>
              = (Inr x, s) \<Longrightarrow> temperature x = JNum t \<and> TempReading.timestamp x = 1000000" for n m t x s
    by (auto simp: getLatestTemperature_def fresh_cached_def
        fetchFromSharedMemory_def getSensorData_def reading_event_def newest_first_def Let_def)
  have a: "\<exists>res st'. coopTempAlert (\<lambda>v. None) 35 95 ''main'' 1060000 1060000 env0
                  [reading_event ''coop/main/temperature'' 98 1000000] initial_temp_state = (Inr res, st')
              \<and> status res = HIGH"
    using checkSafety_classification
            [OF coopTempAlert_first_reading [of 1060000 "''coop/main/temperature''" "\<lambda>v. None" 35 95 "''main''" 1060000 env0 98 1000000]]
          coopTempAlert_first_reading [of 1060000 "''coop/main/temperature''" "\<lambda>v. None" 35 95 "''main''" 1060000 env0 98 1000000]
          tp read [of 1060000 98 1060000]
    by (auto simp: st0)
  have b: "\<exists>res st'. coopTempAlert (\<lambda>v. None) 35 95 ''main'' 1060000 1060000 env0
                  [reading_event ''coop/main/temperature'' 95 1000000] initial_temp_state = (Inr res, st')
              \<and> status res = OK"
    using checkSafety_classification
            [OF coopTempAlert_first_reading [of 1060000 "''coop/main/temperature''" "\<lambda>v. None" 35 95 "''main''" 1060000 env0 95 1000000]]
          coopTempAlert_first_reading [of 1060000 "''coop/main/temperature''" "\<lambda>v. None" 35 95 "''main''" 1060000 env0 95 1000000]
          tp read [of 1060000 95 1060000]
    by (auto simp: st0)
  have c: "\<exists>res st'. coopTempAlert (\<lambda>v. None) 35 95 ''main'' 1150000 1150000 env0
                  [reading_event ''coop/main/temperature'' 98 1000000] initial_temp_state = (Inr res, st')
              \<and> status res = STALE"
    using checkSafety_classification
            [OF coopTempAlert_first_reading [of 1150000 "''coop/main/temperature''" "\<lambda>v. None" 35 95 "''main''" 1150000 env0 98 1000000]]
          coopTempAlert_first_reading [of 1150000 "''coop/main/temperature''" "\<lambda>v. None" 35 95 "''main''" 1150000 env0 98 1000000]
          tp read [of 1150000 98 1150000]
    by (auto simp: st0)
  from a b c show ?thesis by blast
qed



lemma store_with_null_eq:
  "store_with_null =
     [reading_event ''coop/main/temperature'' 72 990000,
      \<lparr>SensorEntry.topic = ''sensors/temp'', data = JNull, timestamp = 1000000,
       analysis = ''Received telemetry message from sensors''\<rparr>]"
  by (simp add: store_with_null_def one_reading_def handleMessage_def deliver_def parse_message_def
        null_json_def topicMatches_def topicMatches_from.simps forwards_def addSensorData_def
        push_and_trim_def annotate0_def clock0_def)

lemma temp_entries_result:
  "temp_entries es = Inr r \<Longrightarrow> e \<in> set es \<Longrightarrow> includes_str (SensorEntry.topic e) ''temp''
     \<Longrightarrow> data e \<noteq> JNull"
proof (induction es arbitrary: r)
  case Nil
  then show ?case by simp
next
  case (Cons x es)
  show ?case
  proof (cases "e = x")
    case True
    with Cons.prems show ?thesis
      by (auto split: sum.splits)
  next
    case False
    with Cons.prems have mem: "e \<in> set es" by simp
    from Cons.prems(1) obtain r' where "temp_entries es = Inr r'"
      by (cases "temp_entries es") (auto split: if_splits sum.splits)
    from Cons.IH [OF this mem Cons.prems(3)] show ?thesis .
  qed
qed

lemma temp_entries_fault_iff:
  "(\<exists>f. temp_entries es = Inl f)
     \<longleftrightarrow> (\<exists>e \<in> set es. includes_str (SensorEntry.topic e) ''temp'' \<and> data e = JNull)"
proof
  assume "\<exists>f. temp_entries es = Inl f"
  then show "\<exists>e \<in> set es. includes_str (SensorEntry.topic e) ''temp'' \<and> data e = JNull"
    using temp_entries_fault by blast
next
  assume "\<exists>e \<in> set es. includes_str (SensorEntry.topic e) ''temp'' \<and> data e = JNull"
  then show "\<exists>f. temp_entries es = Inl f"
    using temp_entries_result [of es] by (cases "temp_entries es") auto
qed

lemma fetch_fault_iff:
  "fetchFromSharedMemory c store = Inl TypeError
     \<longleftrightarrow> (\<exists>e \<in> set store. includes_str (SensorEntry.topic e) ''temp'' \<and> data e = JNull)"
proof
  assume "fetchFromSharedMemory c store = Inl TypeError"
  then have "\<not> (\<exists>r. fetchFromSharedMemory c store = Inr r)" by simp
  with fetch_no_fault [of store c]
  show "\<exists>e \<in> set store. includes_str (SensorEntry.topic e) ''temp'' \<and> data e = JNull"
    by blast
next
  assume "\<exists>e \<in> set store. includes_str (SensorEntry.topic e) ''temp'' \<and> data e = JNull"
  then obtain f where "temp_entries store = Inl f"
    using temp_entries_fault_iff [of store] by blast
  then show "fetchFromSharedMemory c store = Inl TypeError"
    by (cases f) (simp add: fetchFromSharedMemory_def getSensorData_def)
qed




lemma run_calls_all_limited:
  "list_all rate_limited (fst (run_calls coerce calls st)) \<Longrightarrow> snd (run_calls coerce calls st) = st"
proof (induction calls arbitrary: st)
  case Nil
  show ?case by simp
next
  case (Cons call calls)
  obtain minSafe maxSafe c now now_read env store
    where call: "call = (minSafe, maxSafe, c, now, now_read, env, store)"
    by (cases call)
  obtain r st1 where one: "coopTempAlert coerce minSafe maxSafe c now now_read env store st = (r, st1)"
    by (cases "coopTempAlert coerce minSafe maxSafe c now now_read env store st")
  obtain rs st2 where rest: "run_calls coerce calls st1 = (rs, st2)"
    by (cases "run_calls coerce calls st1")
  from Cons.prems have lim: "rate_limited r" and all: "list_all rate_limited rs"
    by (simp_all add: call one rest)
  have "now - lastCallTime st < RATE_LIMIT_INTERVAL"
  proof (rule ccontr)
    assume "\<not> now - lastCallTime st < RATE_LIMIT_INTERVAL"
    from coopTempAlert_accepted_not_limited [OF this, of coerce minSafe maxSafe c now_read env store]
    have "\<And>w. r \<noteq> Inl (RateLimited w)" by (simp add: one)
    with lim show False by (cases r rule: rate_limited.cases) auto
  qed
  from coopTempAlert_limited [OF this, of coerce minSafe maxSafe c now_read env store]
  have "st1 = st" by (simp add: one)
  moreover have "snd (run_calls coerce calls st1) = st1"
    using Cons.IH [of st1] all by (simp add: rest)
  ultimately show ?case using rest by (simp add: call one)
qed

text \<open>
  Claim C9. A call that fails with \<open>RateLimited\<close> changes nothing: the cache and the
  recorded time of the last accepted call are as before. So after any sequence of calls
  that were all rejected the state is still the one the last accepted call left, and a
  further call is rejected exactly when it comes less than 5 seconds after that accepted
  call: rejected attempts do not extend the wait.
\<close>

theorem rejected_call_keeps_limiter:
  "(rate_limited (fst (coopTempAlert coerce minSafe maxSafe c now now_read env store st)) \<longrightarrow>
      snd (coopTempAlert coerce minSafe maxSafe c now now_read env store st) = st)
   \<and> (list_all rate_limited (fst (run_calls coerce calls st)) \<longrightarrow>
        snd (run_calls coerce calls st) = st
      \<and> lastCallTime (snd (run_calls coerce calls st)) = lastCallTime st
      \<and> (rate_limited (fst (coopTempAlert coerce minSafe maxSafe c now now_read env store
                               (snd (run_calls coerce calls st))))
           \<longleftrightarrow> now - lastCallTime st < 5 * 1000))"
proof -
  have iff: "rate_limited (fst (coopTempAlert coerce minSafe maxSafe c now now_read env store st))
           \<longleftrightarrow> now - lastCallTime st < 5 * 1000"
  proof (cases "now - lastCallTime st < RATE_LIMIT_INTERVAL")
    case True
    then show ?thesis
      using coopTempAlert_limited [OF True, of coerce minSafe maxSafe c now_read env store]
      by (simp add: RATE_LIMIT_INTERVAL_def)
  next
    case False
    from coopTempAlert_accepted_not_limited [OF this, of coerce minSafe maxSafe c now_read env store]
    have "\<not> rate_limited (fst (coopTempAlert coerce minSafe maxSafe c now now_read env store st))"
      by (cases "fst (coopTempAlert coerce minSafe maxSafe c now now_read env store st)"
            rule: rate_limited.cases) auto
    with False show ?thesis by (simp add: RATE_LIMIT_INTERVAL_def)
  qed
  have one: "snd (coopTempAlert coerce minSafe maxSafe c now now_read env store st) = st"
    if "rate_limited (fst (coopTempAlert coerce minSafe maxSafe c now now_read env store st))"
  proof -
    from that iff have "now - lastCallTime st < RATE_LIMIT_INTERVAL"
      by (simp add: RATE_LIMIT_INTERVAL_def)
    from coopTempAlert_limited [OF this, of coerce minSafe maxSafe c now_read env store]
    show ?thesis by simp
  qed
  show ?thesis
    using one iff run_calls_all_limited [of coerce calls st] by auto
qed


theorem rejected_call_keeps_limiter_witness:
  "list_all rate_limited (fst (run_calls (\<lambda>v. None) three_attempts accepted_at_1000s))
   \<and> snd (run_calls (\<lambda>v. None) three_attempts accepted_at_1000s) = accepted_at_1000s
   \<and> rate_limited (fst (coopTempAlert (\<lambda>v. None) 35 95 ''main'' 1004999 1004999 env0 []
                          (snd (run_calls (\<lambda>v. None) three_attempts accepted_at_1000s))))
   \<and> \<not> rate_limited (fst (coopTempAlert (\<lambda>v. None) 35 95 ''main'' 1005000 1005000 env0 []
                          (snd (run_calls (\<lambda>v. None) three_attempts accepted_at_1000s))))"
proof -
  have all: "list_all rate_limited (fst (run_calls (\<lambda>v. None) three_attempts accepted_at_1000s))"
    by (simp add: three_attempts_def accepted_at_1000s_def coopTempAlert_def RATE_LIMIT_INTERVAL_def)
  have t: "lastCallTime accepted_at_1000s = 1000000"
    by (simp add: accepted_at_1000s_def)
  have near: "(1004999 :: int) - 1000000 < 5 * 1000" and far: "\<not> (1005000 :: int) - 1000000 < 5 * 1000"
    by simp_all
  from rejected_call_keeps_limiter [of "\<lambda>v. None" 35 95 "''main''" 1004999 1004999 env0 "[]"
         accepted_at_1000s three_attempts] all
  have a: "snd (run_calls (\<lambda>v. None) three_attempts accepted_at_1000s) = accepted_at_1000s
     \<and> rate_limited (fst (coopTempAlert (\<lambda>v. None) 35 95 ''main'' 1004999 1004999 env0 []
                          (snd (run_calls (\<lambda>v. None) three_attempts accepted_at_1000s))))"
    unfolding t using near by blast
  from rejected_call_keeps_limiter [of "\<lambda>v. None" 35 95 "''main''" 1005000 1005000 env0 "[]"
         accepted_at_1000s three_attempts] all
  have b: "\<not> rate_limited (fst (coopTempAlert (\<lambda>v. None) 35 95 ''main'' 1005000 1005000 env0 []
                          (snd (run_calls (\<lambda>v. None) three_attempts accepted_at_1000s))))"
    unfolding t using far by blast
  from all a b show ?thesis by blast
qed


lemma fetch_latest:
  assumes ok: "\<forall>e \<in> set store. includes_str (SensorEntry.topic e) ''temp'' \<longrightarrow> data e \<noteq> JNull"
    and cands: "cands = filter (\<lambda>e. includes_str (SensorEntry.topic e) ''temp''
                      \<and> (\<exists>t. temperature_of (data e) = Inr (Some t))) store"
  shows "(cands = [] \<longrightarrow> fetchFromSharedMemory c store = Inr None)
       \<and> (cands \<noteq> [] \<longrightarrow>
            (\<exists>e \<in> set cands. \<exists>t.
                temperature_of (data e) = Inr (Some t)
              \<and> (\<forall>e' \<in> set cands. SensorEntry.timestamp e' \<le> SensorEntry.timestamp e)
              \<and> fetchFromSharedMemory c store =
                  Inr (Some \<lparr>temperature = t, timestamp = SensorEntry.timestamp e,
                             source = ''mqtt-shared-memory''\<rparr>)))"
proof -
  have te: "temp_entries store = Inr cands"
    unfolding cands using ok by (rule temp_entries_filter)
  show ?thesis
  proof (cases "newest_first cands")
    case Nil
    then have "cands = []" by (simp add: newest_first_Nil)
    then show ?thesis using te Nil by (simp add: fetchFromSharedMemory_def getSensorData_def)
  next
    case (Cons latest rest)
    from newest_first_head [OF Cons]
    have mem: "latest \<in> set cands"
      and newest: "\<forall>e \<in> set cands. SensorEntry.timestamp e \<le> SensorEntry.timestamp latest"
      by simp_all
    from mem obtain t where t: "temperature_of (data latest) = Inr (Some t)"
      unfolding cands by auto
    have f: "fetchFromSharedMemory c store =
            Inr (Some \<lparr>temperature = t, timestamp = SensorEntry.timestamp latest,
                       source = ''mqtt-shared-memory''\<rparr>)"
      using te Cons t by (simp add: fetchFromSharedMemory_def getSensorData_def)
    have ne: "cands \<noteq> []" using mem by auto
    have "\<exists>e \<in> set cands. \<exists>t.
                temperature_of (data e) = Inr (Some t)
              \<and> (\<forall>e' \<in> set cands. SensorEntry.timestamp e' \<le> SensorEntry.timestamp e)
              \<and> fetchFromSharedMemory c store =
                  Inr (Some \<lparr>temperature = t, timestamp = SensorEntry.timestamp e,
                             source = ''mqtt-shared-memory''\<rparr>)"
      using mem newest t f by (intro bexI [of _ latest] exI [of _ t]) simp_all
    with ne show ?thesis by simp
  qed
qed

text \<open>
  The read from the shared store does not look at the coop: for any two coops it gives the
  same answer on the same store, and on a cache miss that answer is what
  \<^verbatim>\<open>getLatestTemperature\<close> returns for whichever coop asked, the cache being written
  under the asking coop's key only. Provided no event on a temperature topic carries a
  \<^verbatim>\<open>null\<close> payload, the answer is \<open>None\<close> when no event of the whole store has a
  topic containing \<^verbatim>\<open>temp\<close> and a \<^verbatim>\<open>temperature\<close> property, and otherwise the
  temperature and instant of such an event that no other such event is newer than.
\<close>

lemma shared_read_ignores_coop:
  "fetchFromSharedMemory c store = fetchFromSharedMemory c' store
   \<and> (fresh_cached (tempCache st c) now = None \<longrightarrow>
        (\<forall>r. fetchFromSharedMemory c' store = Inr (Some r) \<longrightarrow>
             getLatestTemperature c now env store st =
               (Inr r, st\<lparr>tempCache := (tempCache st)(c \<mapsto> r)\<rparr>)))
   \<and> ((\<forall>e \<in> set store. includes_str (SensorEntry.topic e) ''temp'' \<longrightarrow> data e \<noteq> JNull) \<longrightarrow>
        (\<forall>cands. cands = filter (\<lambda>e. includes_str (SensorEntry.topic e) ''temp''
                                      \<and> (\<exists>t. temperature_of (data e) = Inr (Some t))) store \<longrightarrow>
           (cands = [] \<longrightarrow> fetchFromSharedMemory c store = Inr None)
         \<and> (cands \<noteq> [] \<longrightarrow>
              (\<exists>e \<in> set cands. \<exists>t.
                  temperature_of (data e) = Inr (Some t)
                \<and> (\<forall>e' \<in> set cands. SensorEntry.timestamp e' \<le> SensorEntry.timestamp e)
                \<and> fetchFromSharedMemory c store =
                    Inr (Some \<lparr>temperature = t, timestamp = SensorEntry.timestamp e,
                               source = ''mqtt-shared-memory''\<rparr>)))))"
proof -
  have a: "fetchFromSharedMemory c store = fetchFromSharedMemory c' store"
    by (rule fetch_ignores_coop)
  have b: "getLatestTemperature c now env store st =
               (Inr r, st\<lparr>tempCache := (tempCache st)(c \<mapsto> r)\<rparr>)"
    if "fresh_cached (tempCache st c) now = None" "fetchFromSharedMemory c' store = Inr (Some r)" for r
    using that fetch_ignores_coop [of c store c']
    by (simp add: getLatestTemperature_def Let_def)
  show ?thesis
    using a b fetch_latest [of store _ c] by blast
qed

lemma shared_read_example:
  "getLatestTemperature ''barn'' 1060000 env0
       [reading_event ''coop/main/temperature'' 70 1000000,
        reading_event ''coop/main/temperature'' 72 1030000] initial_temp_state
     = (Inr \<lparr>temperature = JNum 72, timestamp = 1030000, source = ''mqtt-shared-memory''\<rparr>,
        initial_temp_state\<lparr>tempCache := [''barn'' \<mapsto>
           \<lparr>temperature = JNum 72, timestamp = 1030000, source = ''mqtt-shared-memory''\<rparr>]\<rparr>)
   \<and> data (reading_event ''coop/main/temperature'' 70 1000000) \<noteq> JNull
   \<and> data (reading_event ''coop/main/temperature'' 72 1030000) \<noteq> JNull"
proof -
  let ?store = "[reading_event ''coop/main/temperature'' 70 1000000,
                 reading_event ''coop/main/temperature'' 72 1030000]"
  have miss: "fresh_cached (tempCache initial_temp_state ''barn'') 1060000 = None"
    by (simp add: initial_temp_state_def fresh_cached_def)
  have main: "fetchFromSharedMemory ''main'' ?store =
      Inr (Some \<lparr>temperature = JNum 72, timestamp = 1030000, source = ''mqtt-shared-memory''\<rparr>)"
    by (simp add: fetchFromSharedMemory_def getSensorData_def reading_event_def newest_first_def)
  from shared_read_ignores_coop [of "''barn''" ?store "''main''" initial_temp_state 1060000 env0] miss main
  show ?thesis by (simp add: initial_temp_state_def reading_event_def)
qed



text \<open>
  Claim C10. The read ignores the coop, but it does not always return the newest event
  with a \<^verbatim>\<open>temperature\<close> property. The dispatcher stores the payload of the message
  \<^verbatim>\<open>null\<close> as it is; once such an event sits on a topic containing \<^verbatim>\<open>temp\<close>, the
  test \<^verbatim>\<open>entry.data.temperature !== undefined\<close> throws on it, and the read fails for
  every coop, although the store still holds the reading of 72 degrees that it returned
  before. The tool then fails with that \<^verbatim>\<open>TypeError\<close> on every cache miss. In general
  the read throws exactly when the store holds such an event (\<open>fetch_fault_iff\<close>).
\<close>

theorem null_payload_read_throws:
  "parse_message null_json ''null'' = JNull
   \<and> store_with_null =
       [reading_event ''coop/main/temperature'' 72 990000,
        \<lparr>SensorEntry.topic = ''sensors/temp'', data = JNull, timestamp = 1000000,
         analysis = ''Received telemetry message from sensors''\<rparr>]
   \<and> fetchFromSharedMemory ''main'' one_reading =
        Inr (Some \<lparr>temperature = JNum 72, timestamp = 990000, source = ''mqtt-shared-memory''\<rparr>)
   \<and> fetchFromSharedMemory ''main'' store_with_null = Inl TypeError
   \<and> getLatestTemperature ''barn'' 1010000 env0 store_with_null initial_temp_state
       = (Inl TypeError, initial_temp_state)
   \<and> fst (coopTempAlert (\<lambda>v. None) 35 95 ''main'' 1010000 1010000 env0 store_with_null
            initial_temp_state) = Inl (Fault TypeError)"
proof -
  have f: "fetchFromSharedMemory c store_with_null = Inl TypeError" for c
    unfolding fetch_fault_iff by (simp add: store_with_null_eq)
  have g: "getLatestTemperature c now env0 store_with_null \<lparr>tempCache = Map.empty, lastCallTime = t\<rparr>
       = (Inl TypeError, \<lparr>tempCache = Map.empty, lastCallTime = t\<rparr>)" for c now t
    by (simp add: getLatestTemperature_def fresh_cached_def f)
  have one: "fetchFromSharedMemory ''main'' one_reading =
        Inr (Some \<lparr>temperature = JNum 72, timestamp = 990000, source = ''mqtt-shared-memory''\<rparr>)"
    by (simp add: one_reading_def fetchFromSharedMemory_def getSensorData_def reading_event_def
          newest_first_def)
  have p: "parse_message null_json ''null'' = JNull"
    by (simp add: parse_message_def null_json_def)
  have t: "fst (coopTempAlert (\<lambda>v. None) 35 95 ''main'' 1010000 1010000 env0 store_with_null
            initial_temp_state) = Inl (Fault TypeError)"
    by (simp add: coopTempAlert_def initial_temp_state_def RATE_LIMIT_INTERVAL_def g)
  show ?thesis
    using p store_with_null_eq one f g [of "''barn''" 1010000 0] t
    by (simp add: initial_temp_state_def)
qed

section \<open>The dispatcher\<close>

lemma every_entry_iff:
  "p \<noteq> JNull \<Longrightarrow>
   every_entry p f = Inr (\<forall>(k, v) \<in> set f. \<exists>x. field_of p k = Some x \<and> strict_eq x v)"
  by (induction f) (auto simp: property_equals_def split: option.splits bool.splits)

lemma every_entry_null:
  "every_entry JNull f = (if f = [] then Inr True else Inl TypeError)"
  by (cases f) (auto simp: property_equals_def)

lemma forwards_filtered:
  assumes "filter_sub sub = Some f" "typeof_object parsed" "forwards sub parsed"
  shows "\<not> paused sub \<and> (\<forall>(k, v) \<in> set f. \<exists>x. field_of parsed k = Some x \<and> strict_eq x v)"
proof (cases "parsed = JNull")
  case True
  with assms show ?thesis
    by (auto simp: forwards_def every_entry_null split: if_splits)
next
  case False
  with assms show ?thesis
    by (auto simp: forwards_def every_entry_iff split: if_splits)
qed

lemma forwards_unfiltered:
  "\<not> paused sub \<Longrightarrow> \<not> typeof_object parsed \<Longrightarrow> forwards sub parsed"
  by (simp add: forwards_def split: option.splits)

lemma foldl_deliver:
  "foldl (deliver annotate clock tp parsed) s subs =
     run_store_ops (map (\<lambda>(k, sub). AddSensorData tp parsed (annotate tp parsed) (clock k))
                      (filter (\<lambda>(k, sub). forwards sub parsed) subs)) s"
proof (induction subs arbitrary: s)
  case Nil
  show ?case by (simp add: run_store_ops_def)
next
  case (Cons x subs)
  show ?case
    using Cons.IH [of "deliver annotate clock tp parsed s x"]
    by (cases x) (simp add: run_store_ops_def deliver_def)
qed

lemma handleMessage_eq:
  "handleMessage JSON_parse annotate clock subs tp raw s =
     run_store_ops
       (map (\<lambda>(k, sub). AddSensorData tp (parse_message JSON_parse raw)
                           (annotate tp (parse_message JSON_parse raw)) (clock k))
          (filter (\<lambda>(k, sub). topicMatches tp k \<and> forwards sub (parse_message JSON_parse raw)) subs))
       s"
proof -
  have "filter (\<lambda>(k, sub). forwards sub parsed) (filter (\<lambda>(k, sub). topicMatches tp k) subs)
        = filter (\<lambda>(k, sub). topicMatches tp k \<and> forwards sub parsed) subs" for parsed
    by (induction subs) auto
  then show ?thesis
    by (simp add: handleMessage_def foldl_deliver)
qed


text \<open>
  Claim C8, as stated, fails: the filter is only looked at when the parsed payload has
  \<^verbatim>\<open>typeof\<close> \<^verbatim>\<open>"object"\<close>. The message \<^verbatim>\<open>hello\<close> is not JSON, so the payload is the
  text itself; the matching, unpaused subscription has the filter \<^verbatim>\<open>{type: "temp"}\<close>,
  the text has no property \<^verbatim>\<open>type\<close>, and the message is stored all the same.
\<close>

theorem filter_skipped_counterexample:
  "filter_sub typed_sub = Some [(''type'', JStr ''temp'')]
   \<and> \<not> paused typed_sub
   \<and> topicMatches ''sensors/a'' ''sensors/#''
   \<and> parse_message not_json ''hello'' = JStr ''hello''
   \<and> field_of (JStr ''hello'') ''type'' = None
   \<and> handleMessage not_json annotate0 clock0 [(''sensors/#'', typed_sub)] ''sensors/a'' ''hello'' []
       = [\<lparr>SensorEntry.topic = ''sensors/a'', data = JStr ''hello'', timestamp = 1000000,
           analysis = ''Received telemetry message from sensors''\<rparr>]"
  by (simp add: typed_sub_def topicMatches_def topicMatches_from.simps parse_message_def not_json_def
        array_index_def digit_val_def handleMessage_def deliver_def forwards_def addSensorData_def
        push_and_trim_def annotate0_def clock0_def)

text \<open>
  Claim C8, amended. Each matching subscription decides by itself: the store receives,
  in the order of the subscriptions, one entry for each matching subscription that
  forwards the message, and nothing for the others. A subscription with a filter forwards
  a payload of object type (an object, an array or \<^verbatim>\<open>null\<close>) only if it is not paused
  and every filter entry is strictly equal to the payload's property of that name. A
  payload that is not of object type (raw text, or a JSON number, string or boolean) is
  forwarded by every unpaused subscription, filter or not.
\<close>

theorem filter_applies_to_object_payloads:
  "handleMessage JSON_parse annotate clock subs tp raw s =
     run_store_ops
       (map (\<lambda>(k, sub). AddSensorData tp (parse_message JSON_parse raw)
                           (annotate tp (parse_message JSON_parse raw)) (clock k))
          (filter (\<lambda>(k, sub). topicMatches tp k \<and> forwards sub (parse_message JSON_parse raw)) subs))
       s
   \<and> (\<forall>f. filter_sub sub = Some f \<and> typeof_object parsed \<and> forwards sub parsed \<longrightarrow>
          \<not> paused sub \<and> (\<forall>(k, v) \<in> set f. \<exists>x. field_of parsed k = Some x \<and> strict_eq x v))
   \<and> (\<not> paused sub \<and> \<not> typeof_object parsed \<longrightarrow> forwards sub parsed)"
  using handleMessage_eq [of JSON_parse annotate clock subs tp raw s]
    forwards_filtered [of sub _ parsed] forwards_unfiltered [of sub parsed]
  by blast

theorem filter_applies_to_object_payloads_witness:
  \<open>filter_sub typed_sub = Some [(''type'', JStr ''temp'')]
   \<and> typeof_object (JObj [(''type'', JStr ''temp''), (''v'', JNum 3)])
   \<and> forwards typed_sub (JObj [(''type'', JStr ''temp''), (''v'', JNum 3)])
   \<and> (\<exists>x. field_of (JObj [(''type'', JStr ''temp''), (''v'', JNum 3)]) ''type'' = Some x
           \<and> strict_eq x (JStr ''temp''))
   \<and> map data (handleMessage temp_json annotate0 clock0 three_subs ''sensors/a''
                  ''{"type":"temp","v":3}'' [])
       = [JObj [(''type'', JStr ''temp''), (''v'', JNum 3)],
          JObj [(''type'', JStr ''temp''), (''v'', JNum 3)]]
   \<and> map SensorEntry.timestamp
          (handleMessage temp_json annotate0 clock0 three_subs ''sensors/a''
                  ''{"type":"temp","v":3}'' [])
       = [clock0 ''sensors/#'', clock0 ''#'']\<close>
proof -
  let ?p = "JObj [(''type'', JStr ''temp''), (''v'', JNum 3)]"
  have f: "filter_sub typed_sub = Some [(''type'', JStr ''temp'')]"
    by (simp add: typed_sub_def)
  have o: "typeof_object ?p" by simp
  have fw: "forwards typed_sub ?p"
    by (simp add: forwards_def typed_sub_def property_equals_def)
  have pm: \<open>parse_message temp_json ''{"type":"temp","v":3}'' = ?p\<close>
    by (simp add: parse_message_def temp_json_def)
  have sel: "filter (\<lambda>(k, sub). topicMatches ''sensors/a'' k \<and> forwards sub ?p) three_subs
             = [(''sensors/#'', typed_sub),
                (''#'', \<lparr>topic = ''#'', qos = 0, filter_sub = None, paused = False\<rparr>)]"
    by (simp add: three_subs_def topicMatches_def topicMatches_from.simps forwards_def typed_sub_def
          property_equals_def)
  from filter_applies_to_object_payloads
         [of temp_json annotate0 clock0 three_subs "''sensors/a''" \<open>''{"type":"temp","v":3}''\<close> "[]"
             typed_sub ?p]
  have run: \<open>handleMessage temp_json annotate0 clock0 three_subs ''sensors/a'' ''{"type":"temp","v":3}'' []
         = run_store_ops
             [AddSensorData ''sensors/a'' ?p (annotate0 ''sensors/a'' ?p) (clock0 ''sensors/#''),
              AddSensorData ''sensors/a'' ?p (annotate0 ''sensors/a'' ?p) (clock0 ''#'')] []\<close>
    and eq: "\<forall>(k, v) \<in> set [(''type'', JStr ''temp'')]. \<exists>x. field_of ?p k = Some x \<and> strict_eq x v"
    using f o fw by (simp_all add: pm sel)
  from eq have e: "\<exists>x. field_of ?p ''type'' = Some x \<and> strict_eq x (JStr ''temp'')"
    by simp
  show ?thesis
    using f o fw e
    by (simp add: run run_store_ops_def addSensorData_def push_and_trim_def)
qed



section \<open>The feed scheduler\<close>

lemma new_Date_whole: "new_Date (of_int k) = k"
  by (simp add: new_Date_def)

lemma current_record_supplied:
  assumes "s \<noteq> []" "Date_parse s = Some t"
  shows "current_record Date_parse (Some s) h c st =
           (Inr \<lparr>FeedingRecord.lastFedAt = t, nextFeedAt = new_Date (of_int t + h * 60 * 60 * 1000),
                 coopId = c, intervalHours = h\<rparr>,
            st\<lparr>feedingRecords := (feedingRecords st)(c \<mapsto>
                 \<lparr>FeedingRecord.lastFedAt = t, nextFeedAt = new_Date (of_int t + h * 60 * 60 * 1000),
                  coopId = c, intervalHours = h\<rparr>)\<rparr>)"
  using assms by (simp add: current_record_def Let_def)

lemma current_record_omitted:
  assumes "l = None \<or> l = Some []"
  shows "current_record Date_parse l h c st =
           (case feedingRecords st c of
              None \<Rightarrow> (Inl NoFeedingHistory, st)
            | Some rec \<Rightarrow> (Inr rec, st))"
  using assms by (auto simp: current_record_def stored_record_def)

lemma requestApproval_records:
  "feedingRecords (snd (requestApproval req st)) = feedingRecords st
   \<and> timers (snd (requestApproval req st)) = timers st
   \<and> scheduledReminders (snd (requestApproval req st)) = scheduledReminders st"
  by (simp add: requestApproval_def split: option.splits)

text \<open>What the call leaves in the state and returns, once the record is known.\<close>

lemma feedSchedule_after_record:
  assumes "1 \<le> h" "h \<le> 48"
    and "current_record Date_parse l h c st = (Inr rec, st1)"
  shows "feedingRecords (snd (feedSchedule Date_parse l h sr c now st)) = feedingRecords st1
       \<and> timers (snd (feedSchedule Date_parse l h sr c now st)) = timers st1
       \<and> scheduledReminders (snd (feedSchedule Date_parse l h sr c now st)) = scheduledReminders st1
       \<and> (\<not> sr \<or> now \<ge> nextFeedAt rec \<longrightarrow>
            feedSchedule Date_parse l h sr c now st =
              (Inr \<lparr>feed_result.lastFedAt = FeedingRecord.lastFedAt rec, nextAt = nextFeedAt rec,
                    due = (now \<ge> nextFeedAt rec), message = [status_notice now rec h],
                    reminderScheduled = False\<rparr>, st1))"
proof -
  let ?req = "\<lparr>action = ''schedule_reminder'', reason = ShortInterval h, coopId = c, intervalHours = h\<rparr>"
  obtain a st2 where ra: "requestApproval ?req st1 = (a, st2)"
    by (cases "requestApproval ?req st1")
  have keep: "feedingRecords st2 = feedingRecords st1 \<and> timers st2 = timers st1
              \<and> scheduledReminders st2 = scheduledReminders st1"
    using requestApproval_records [of ?req st1] ra by simp
  show ?thesis
    using assms ra keep
    by (cases a) (auto simp: feedSchedule_def Let_def)
qed

lemma iso_examples:
  "iso_utc ''2024-01-15T00:00:00Z'' = Some 1705276800000"
  "iso_utc ''2024-01-15T01:00:00Z'' = Some 1705280400000"
  "iso_utc ''2024-01-15T12:00:00Z'' = Some 1705320000000"
  "iso_utc ''not a date'' = None"
  "iso_utc [] = None"
  by code_simp+

text \<open>
  Claim C6. A report with a parsable \<open>lastFedAt\<close> and an interval within 1 to 48 hours
  replaces the coop's record by the one with that \<open>lastFedAt\<close>, the interval, and
  \<open>nextFeedAt\<close> the instant \<open>lastFedAt\<close> plus the interval (cut to whole
  milliseconds, which changes nothing when the interval is a whole number of
  milliseconds, as every whole number of hours is); the records of other coops stay. When
  no reminder is asked for, or the feeding is already due, the call returns these two
  instants. A later report for the same coop without \<open>lastFedAt\<close> leaves the records as
  they are and returns the instants of the stored record.
\<close>

theorem report_replaces_record:
  assumes "s \<noteq> []" and "Date_parse s = Some t" and "1 \<le> h" and "h \<le> 48"
  shows "feedingRecords (snd (feedSchedule Date_parse (Some s) h sr c now st)) =
           (feedingRecords st)(c \<mapsto>
              \<lparr>FeedingRecord.lastFedAt = t, nextFeedAt = new_Date (of_int t + h * 60 * 60 * 1000),
               coopId = c, intervalHours = h\<rparr>)
       \<and> (\<forall>k. h * 60 * 60 * 1000 = of_int k \<longrightarrow>
             new_Date (of_int t + h * 60 * 60 * 1000) = t + k)
       \<and> (\<not> sr \<or> now \<ge> new_Date (of_int t + h * 60 * 60 * 1000) \<longrightarrow>
            (\<exists>res. fst (feedSchedule Date_parse (Some s) h sr c now st) = Inr res
                  \<and> feed_result.lastFedAt res = t
                  \<and> nextAt res = new_Date (of_int t + h * 60 * 60 * 1000)))
       \<and> (\<forall>l h2 sr2 now2 st1 rec.
             (l = None \<or> l = Some []) \<and> 1 \<le> h2 \<and> h2 \<le> 48 \<and> feedingRecords st1 c = Some rec \<longrightarrow>
               feedingRecords (snd (feedSchedule Date_parse l h2 sr2 c now2 st1)) = feedingRecords st1
             \<and> (\<not> sr2 \<or> now2 \<ge> nextFeedAt rec \<longrightarrow>
                  (\<exists>res. fst (feedSchedule Date_parse l h2 sr2 c now2 st1) = Inr res
                        \<and> feed_result.lastFedAt res = FeedingRecord.lastFedAt rec
                        \<and> nextAt res = nextFeedAt rec)))"
proof -
  let ?rec = "\<lparr>FeedingRecord.lastFedAt = t, nextFeedAt = new_Date (of_int t + h * 60 * 60 * 1000),
               coopId = c, intervalHours = h\<rparr>"
  let ?st1 = "st\<lparr>feedingRecords := (feedingRecords st)(c \<mapsto> ?rec)\<rparr>"
  have cur: "current_record Date_parse (Some s) h c st = (Inr ?rec, ?st1)"
    using assms(1,2) by (rule current_record_supplied)
  note first = feedSchedule_after_record [OF assms(3,4) cur, of sr now]
  have a: "feedingRecords (snd (feedSchedule Date_parse (Some s) h sr c now st)) =
           (feedingRecords st)(c \<mapsto> ?rec)"
    using first by simp
  have b: "new_Date (of_int t + h * 60 * 60 * 1000) = t + k" if "h * 60 * 60 * 1000 = of_int k" for k
  proof -
    have "of_int t + h * 60 * 60 * 1000 = (of_int (t + k) :: rat)"
      using that by simp
    then show ?thesis by (simp only: new_Date_whole)
  qed
  have c1: "\<exists>res. fst (feedSchedule Date_parse (Some s) h sr c now st) = Inr res
                  \<and> feed_result.lastFedAt res = t
                  \<and> nextAt res = new_Date (of_int t + h * 60 * 60 * 1000)"
    if "\<not> sr \<or> now \<ge> new_Date (of_int t + h * 60 * 60 * 1000)"
    using first that by auto
  have d: "feedingRecords (snd (feedSchedule Date_parse l h2 sr2 c now2 st1)) = feedingRecords st1
             \<and> (\<not> sr2 \<or> now2 \<ge> nextFeedAt rec \<longrightarrow>
                  (\<exists>res. fst (feedSchedule Date_parse l h2 sr2 c now2 st1) = Inr res
                        \<and> feed_result.lastFedAt res = FeedingRecord.lastFedAt rec
                        \<and> nextAt res = nextFeedAt rec))"
    if "l = None \<or> l = Some []" "1 \<le> h2" "h2 \<le> 48" "feedingRecords st1 c = Some rec"
    for l h2 sr2 now2 st1 rec
  proof -
    have cur2: "current_record Date_parse l h2 c st1 = (Inr rec, st1)"
      using that(1,4) by (simp add: current_record_omitted)
    from feedSchedule_after_record [OF that(2,3) cur2, of sr2 now2]
    show ?thesis by auto
  qed
  show ?thesis
    using a b c1 d by blast
qed


theorem report_replaces_record_witness:
  "iso_utc ''2024-01-15T00:00:00Z'' = Some 1705276800000
   \<and> iso_utc ''2024-01-15T12:00:00Z'' = Some 1705320000000
   \<and> (\<exists>res. fst (feedSchedule iso_utc (Some ''2024-01-15T00:00:00Z'') 12 False ''main''
                     1705280400000 initial_feed_state) = Inr res
            \<and> feed_result.lastFedAt res = 1705276800000 \<and> nextAt res = 1705320000000)
   \<and> feedingRecords fed_at_midnight ''main'' =
        Some \<lparr>FeedingRecord.lastFedAt = 1705276800000, nextFeedAt = 1705320000000,
              coopId = ''main'', intervalHours = 12\<rparr>
   \<and> (\<exists>res. fst (feedSchedule iso_utc None 12 False ''main'' 1705284000000 fed_at_midnight) = Inr res
            \<and> feed_result.lastFedAt res = 1705276800000 \<and> nextAt res = 1705320000000)
   \<and> feedingRecords (snd (feedSchedule iso_utc None 12 False ''main'' 1705284000000 fed_at_midnight))
       = feedingRecords fed_at_midnight"
proof -
  have ne: "''2024-01-15T00:00:00Z'' \<noteq> []" by simp
  have h: "(1 :: rat) \<le> 12" "(12 :: rat) \<le> 48" by simp_all
  have whole: "(12 :: rat) * 60 * 60 * 1000 = of_int 43200000" by simp
  note inst = report_replaces_record
                 [where Date_parse = iso_utc and s = "''2024-01-15T00:00:00Z''" and t = 1705276800000
                    and h = 12 and sr = False and c = "''main''" and now = 1705280400000
                    and st = initial_feed_state, OF ne iso_examples(1) h]
  from inst whole have "new_Date (of_int 1705276800000 + 12 * 60 * 60 * 1000) = 1705276800000 + 43200000"
    by blast
  then have nd: "new_Date (of_int 1705276800000 + 12 * 60 * 60 * 1000) = 1705320000000"
    by simp
  from inst have rec: "feedingRecords fed_at_midnight ''main'' =
        Some \<lparr>FeedingRecord.lastFedAt = 1705276800000, nextFeedAt = 1705320000000,
              coopId = ''main'', intervalHours = 12\<rparr>"
    unfolding fed_at_midnight_def nd by simp
  from inst have first: "\<exists>res. fst (feedSchedule iso_utc (Some ''2024-01-15T00:00:00Z'') 12 False ''main''
                     1705280400000 initial_feed_state) = Inr res
            \<and> feed_result.lastFedAt res = 1705276800000 \<and> nextAt res = 1705320000000"
    unfolding nd by blast
  from inst rec h
  have later: "feedingRecords (snd (feedSchedule iso_utc None 12 False ''main'' 1705284000000 fed_at_midnight))
                 = feedingRecords fed_at_midnight
      \<and> (\<exists>res. fst (feedSchedule iso_utc None 12 False ''main'' 1705284000000 fed_at_midnight) = Inr res
            \<and> feed_result.lastFedAt res = 1705276800000 \<and> nextAt res = 1705320000000)"
    by (metis FeedingRecord.select_convs(1,2))
  from iso_examples(1,3) first rec later show ?thesis by blast
qed


lemma feedSchedule_arming:
  assumes "1 \<le> h" "h \<le> 48"
    and "current_record Date_parse l h c st = (Inr rec, st1)"
    and "now < nextFeedAt rec"
  shows "feedSchedule Date_parse l h True c now st =
           (if h < 6 then
              (case approvalCallback st1 of
                 None \<Rightarrow>
                   (Inl (ApprovalRequired \<lparr>action = ''schedule_reminder'', reason = ShortInterval h,
                                            coopId = c, intervalHours = h\<rparr>), st1)
               | Some callback \<Rightarrow>
                   if callback \<lparr>action = ''schedule_reminder'', reason = ShortInterval h,
                                coopId = c, intervalHours = h\<rparr>
                   then (Inl NotAFunction,
                         st1\<lparr>effects := effects st1 @
                               [GateCalled \<lparr>action = ''schedule_reminder'', reason = ShortInterval h,
                                            coopId = c, intervalHours = h\<rparr>]\<rparr>)
                   else (Inr \<lparr>feed_result.lastFedAt = FeedingRecord.lastFedAt rec,
                              nextAt = nextFeedAt rec, due = False,
                              message = [status_notice now rec h, ReminderNotScheduled],
                              reminderScheduled = False\<rparr>,
                         st1\<lparr>effects := effects st1 @
                               [GateCalled \<lparr>action = ''schedule_reminder'', reason = ShortInterval h,
                                            coopId = c, intervalHours = h\<rparr>]\<rparr>))
            else (Inl NotAFunction, st1))"
  using assms by (simp add: feedSchedule_def requestApproval_def Let_def split: option.splits)

lemma midnight_record:
  "current_record iso_utc (Some ''2024-01-15T00:00:00Z'') h ''main'' st =
     (Inr \<lparr>FeedingRecord.lastFedAt = 1705276800000,
           nextFeedAt = new_Date (1705276800000 + h * 60 * 60 * 1000),
           coopId = ''main'', intervalHours = h\<rparr>,
      st\<lparr>feedingRecords := (feedingRecords st)(''main'' \<mapsto>
           \<lparr>FeedingRecord.lastFedAt = 1705276800000,
            nextFeedAt = new_Date (1705276800000 + h * 60 * 60 * 1000),
            coopId = ''main'', intervalHours = h\<rparr>)\<rparr>)"
proof -
  have ne: "''2024-01-15T00:00:00Z'' \<noteq> []" by simp
  show ?thesis
    using current_record_supplied [where Date_parse = iso_utc and s = "''2024-01-15T00:00:00Z''"
        and t = 1705276800000 and h = h and c = "''main''" and st = st, OF ne iso_examples(1)]
    by simp
qed

lemma new_Date_numeral: "new_Date (numeral n) = numeral n"
  by (simp add: new_Date_def)

lemma fed_at_midnight_eq:
  "fed_at_midnight =
     initial_feed_state\<lparr>feedingRecords := [''main'' \<mapsto>
        \<lparr>FeedingRecord.lastFedAt = 1705276800000, nextFeedAt = 1705320000000,
         coopId = ''main'', intervalHours = 12\<rparr>]\<rparr>"
proof -
  have h: "(1 :: rat) \<le> 12" "(12 :: rat) \<le> 48" by simp_all
  from feedSchedule_after_record [OF h midnight_record [of 12 initial_feed_state], of False 1705280400000]
  show ?thesis
    by (simp add: fed_at_midnight_def new_Date_numeral initial_feed_state_def)
qed

text \<open>
  Claim C7, as stated, fails. An empty \<open>lastFedAt\<close> is supplied and unparsable, yet
  \<^verbatim>\<open>if (lastFedAt)\<close> takes it as omitted: with a stored record the report succeeds
  from that record. And the interval is validated before anything else, so an unparsable
  \<open>lastFedAt\<close>, or a missing one without a record, together with an interval of 100
  hours fails with \<open>InvalidInterval\<close>, not with \<open>InvalidTimestamp\<close> or
  \<open>NoFeedingHistory\<close>.
\<close>

theorem empty_lastFedAt_counterexample:
  "iso_utc [] = None
   \<and> fst (feedSchedule iso_utc (Some []) 12 False ''main'' 1705284000000 fed_at_midnight)
       = Inr \<lparr>feed_result.lastFedAt = 1705276800000, nextAt = 1705320000000, due = False,
              message = [OnSchedule 10], reminderScheduled = False\<rparr>
   \<and> iso_utc ''not a date'' = None
   \<and> fst (feedSchedule iso_utc (Some ''not a date'') 100 False ''main'' 1705284000000 initial_feed_state)
       = Inl InvalidInterval
   \<and> feedingRecords initial_feed_state ''main'' = None
   \<and> fst (feedSchedule iso_utc None 100 False ''main'' 1705284000000 initial_feed_state)
       = Inl InvalidInterval"
proof -
  have h: "(1 :: rat) \<le> 12" "(12 :: rat) \<le> 48" by simp_all
  have cur: "current_record iso_utc (Some []) 12 ''main'' fed_at_midnight =
               (Inr \<lparr>FeedingRecord.lastFedAt = 1705276800000, nextFeedAt = 1705320000000,
                     coopId = ''main'', intervalHours = 12\<rparr>, fed_at_midnight)"
    by (simp add: current_record_omitted fed_at_midnight_eq)
  have n: "status_notice 1705284000000
             \<lparr>FeedingRecord.lastFedAt = 1705276800000, nextFeedAt = 1705320000000,
              coopId = ''main'', intervalHours = 12\<rparr> 12 = OnSchedule 10"
    by (simp add: status_notice_def Let_def)
  from feedSchedule_after_record [OF h cur, of False 1705284000000]
  have a: "fst (feedSchedule iso_utc (Some []) 12 False ''main'' 1705284000000 fed_at_midnight)
       = Inr \<lparr>feed_result.lastFedAt = 1705276800000, nextAt = 1705320000000, due = False,
              message = [OnSchedule 10], reminderScheduled = False\<rparr>"
    by (simp add: n)
  have b: "fst (feedSchedule iso_utc l 100 False ''main'' 1705284000000 initial_feed_state)
       = Inl InvalidInterval" for l
    by (simp add: feedSchedule_def)
  have c: "feedingRecords initial_feed_state ''main'' = None"
    by (simp add: initial_feed_state_def)
  from iso_examples(4,5) a b c show ?thesis by blast
qed

text \<open>
  Claim C7, amended. A report fails with \<open>InvalidInterval\<close> whenever the interval is
  outside 1 to 48 hours, whatever else was supplied. With a valid interval it fails with
  \<open>InvalidTimestamp\<close> when a supplied, non-empty \<open>lastFedAt\<close> is unparsable, and
  with \<open>NoFeedingHistory\<close> when \<open>lastFedAt\<close> is omitted or empty and the coop has no
  record. Each of these failures is an error value of the call and leaves the whole state
  as it was.
\<close>

theorem report_failures:
  "((h < 1 \<or> h > 48) \<longrightarrow>
      feedSchedule Date_parse l h sr c now st = (Inl InvalidInterval, st))
   \<and> (1 \<le> h \<and> h \<le> 48 \<and> s \<noteq> [] \<and> Date_parse s = None \<longrightarrow>
        feedSchedule Date_parse (Some s) h sr c now st = (Inl InvalidTimestamp, st))
   \<and> (1 \<le> h \<and> h \<le> 48 \<and> (l = None \<or> l = Some []) \<and> feedingRecords st c = None \<longrightarrow>
        feedSchedule Date_parse l h sr c now st = (Inl NoFeedingHistory, st))"
  by (auto simp: feedSchedule_def current_record_def stored_record_def)

theorem report_failures_witness:
  "feedSchedule iso_utc (Some ''2024-01-15T00:00:00Z'') 49 False ''main'' 1705284000000 fed_at_midnight
     = (Inl InvalidInterval, fed_at_midnight)
   \<and> feedSchedule iso_utc (Some ''not a date'') 12 False ''main'' 1705284000000 fed_at_midnight
     = (Inl InvalidTimestamp, fed_at_midnight)
   \<and> feedSchedule iso_utc None 12 False ''barn'' 1705284000000 fed_at_midnight
     = (Inl NoFeedingHistory, fed_at_midnight)"
proof -
  have none: "feedingRecords fed_at_midnight ''barn'' = None"
    by (simp add: fed_at_midnight_eq initial_feed_state_def)
  have a: "feedSchedule iso_utc (Some ''2024-01-15T00:00:00Z'') 49 False ''main'' 1705284000000 fed_at_midnight
     = (Inl InvalidInterval, fed_at_midnight)"
    using report_failures [where h = 49 and Date_parse = iso_utc and l = "Some ''2024-01-15T00:00:00Z''"
        and sr = False and c = "''main''" and now = 1705284000000 and st = fed_at_midnight]
    by simp
  have b: "feedSchedule iso_utc (Some ''not a date'') 12 False ''main'' 1705284000000 fed_at_midnight
     = (Inl InvalidTimestamp, fed_at_midnight)"
    using report_failures [where h = 12 and Date_parse = iso_utc and s = "''not a date''"
        and sr = False and c = "''main''" and now = 1705284000000 and st = fed_at_midnight]
      iso_examples(4)
    by simp
  have c: "feedSchedule iso_utc None 12 False ''barn'' 1705284000000 fed_at_midnight
     = (Inl NoFeedingHistory, fed_at_midnight)"
    using report_failures [where h = 12 and Date_parse = iso_utc and l = None
        and sr = False and c = "''barn''" and now = 1705284000000 and st = fed_at_midnight]
      none
    by simp
  from a b c show ?thesis by blast
qed

lemma feedSchedule_never_arms:
  "timers (snd (feedSchedule Date_parse l h sr c now st)) = timers st
   \<and> scheduledReminders (snd (feedSchedule Date_parse l h sr c now st)) = scheduledReminders st
   \<and> (\<forall>res. fst (feedSchedule Date_parse l h sr c now st) = Inr res \<longrightarrow> \<not> reminderScheduled res)"
  by (auto simp: feedSchedule_def current_record_def stored_record_def requestApproval_def Let_def
        split: option.splits if_splits)

lemma feedSchedule_denied:
  assumes "1 \<le> h" "h < 6"
    and "current_record Date_parse l h c st = (Inr rec, st1)"
    and "now < nextFeedAt rec"
    and "approvalCallback st1 = Some callback"
    and "\<not> callback \<lparr>action = ''schedule_reminder'', reason = ShortInterval h, coopId = c,
                      intervalHours = h\<rparr>"
  shows "feedSchedule Date_parse l h True c now st =
           (Inr \<lparr>feed_result.lastFedAt = FeedingRecord.lastFedAt rec, nextAt = nextFeedAt rec,
                 due = False, message = [status_notice now rec h, ReminderNotScheduled],
                 reminderScheduled = False\<rparr>,
            st1\<lparr>effects := effects st1 @
                   [GateCalled \<lparr>action = ''schedule_reminder'', reason = ShortInterval h,
                                coopId = c, intervalHours = h\<rparr>]\<rparr>)"
  using assms by (simp add: feedSchedule_def requestApproval_def Let_def)

lemma denied_reminder_example:
  "feedSchedule iso_utc (Some ''2024-01-15T00:00:00Z'') 4 True ''main'' 1705280400000 denying_gate
     = (Inr \<lparr>feed_result.lastFedAt = 1705276800000, nextAt = 1705291200000, due = False,
              message = [OnSchedule 3, ReminderNotScheduled], reminderScheduled = False\<rparr>,
        denying_gate\<lparr>feedingRecords := [''main'' \<mapsto>
             \<lparr>FeedingRecord.lastFedAt = 1705276800000, nextFeedAt = 1705291200000,
              coopId = ''main'', intervalHours = 4\<rparr>],
           effects := [GateCalled \<lparr>action = ''schedule_reminder'', reason = ShortInterval 4,
                                   coopId = ''main'', intervalHours = 4\<rparr>]\<rparr>)"
proof -
  have h4: "(1 :: rat) \<le> 4" "(4 :: rat) \<le> 48" by simp_all
  have future4: "1705280400000 < nextFeedAt \<lparr>FeedingRecord.lastFedAt = 1705276800000,
           nextFeedAt = new_Date (1705276800000 + 4 * 60 * 60 * 1000),
           coopId = ''main'', intervalHours = 4\<rparr>"
    by (simp add: new_Date_numeral)
  have n: "status_notice 1705280400000
             \<lparr>FeedingRecord.lastFedAt = 1705276800000, nextFeedAt = 1705291200000,
              coopId = ''main'', intervalHours = 4\<rparr> 4 = OnSchedule 3"
    by (simp add: status_notice_def Let_def)
  show ?thesis
    using feedSchedule_arming [OF h4 midnight_record [of 4 denying_gate] future4]
    by (simp add: new_Date_numeral n denying_gate_def setApprovalCallback_def initial_feed_state_def)
qed

text \<open>
  Claim C1. With the gate approving, \<^verbatim>\<open>report("main", lastFedAt =
  "2024-01-15T00:00:00Z", intervalHours = 4, scheduleReminder = true)\<close>, called one hour
  after the feeding (three hours before the next one), calls the gate and then throws the
  \<^verbatim>\<open>TypeError\<close> of applying the boolean \<^verbatim>\<open>scheduleReminder\<close>: no result is returned,
  no timer is armed and no reminder is registered for the coop. The same call with an
  interval of 12 hours, which needs no approval, throws as well. The claim has
  \<open>reminderScheduled = true\<close> and one active timer in both cases. What the claim says
  about the order and about a denial does hold (\<open>feedSchedule_arming\<close>,
  \<open>feedSchedule_denied\<close>, \<open>denied_reminder_example\<close>); the module-level
  function, were it called, would arm the timer (\<open>scheduleReminder_itself\<close>).
\<close>

theorem approved_reminder_throws:
  "fst (feedSchedule iso_utc (Some ''2024-01-15T00:00:00Z'') 4 True ''main'' 1705280400000 approving_gate)
     = Inl NotAFunction
   \<and> timers (snd (feedSchedule iso_utc (Some ''2024-01-15T00:00:00Z'') 4 True ''main'' 1705280400000
                    approving_gate)) = []
   \<and> scheduledReminders (snd (feedSchedule iso_utc (Some ''2024-01-15T00:00:00Z'') 4 True ''main''
                                1705280400000 approving_gate)) ''main'' = None
   \<and> effects (snd (feedSchedule iso_utc (Some ''2024-01-15T00:00:00Z'') 4 True ''main'' 1705280400000
                     approving_gate))
       = [GateCalled \<lparr>action = ''schedule_reminder'', reason = ShortInterval 4, coopId = ''main'',
                      intervalHours = 4\<rparr>]
   \<and> fst (feedSchedule iso_utc (Some ''2024-01-15T00:00:00Z'') 12 True ''main'' 1705280400000
            initial_feed_state) = Inl NotAFunction
   \<and> timers (snd (feedSchedule iso_utc (Some ''2024-01-15T00:00:00Z'') 12 True ''main'' 1705280400000
                    initial_feed_state)) = []"
proof -
  have h4: "(1 :: rat) \<le> 4" "(4 :: rat) \<le> 48" and h12: "(1 :: rat) \<le> 12" "(12 :: rat) \<le> 48"
    by simp_all
  have future4: "1705280400000 < nextFeedAt \<lparr>FeedingRecord.lastFedAt = 1705276800000,
           nextFeedAt = new_Date (1705276800000 + 4 * 60 * 60 * 1000),
           coopId = ''main'', intervalHours = 4\<rparr>"
    and future12: "1705280400000 < nextFeedAt \<lparr>FeedingRecord.lastFedAt = 1705276800000,
           nextFeedAt = new_Date (1705276800000 + 12 * 60 * 60 * 1000),
           coopId = ''main'', intervalHours = 12\<rparr>"
    by (simp_all add: new_Date_numeral)
  have a: "feedSchedule iso_utc (Some ''2024-01-15T00:00:00Z'') 4 True ''main'' 1705280400000 approving_gate
     = (Inl NotAFunction,
        approving_gate\<lparr>feedingRecords := [''main'' \<mapsto>
             \<lparr>FeedingRecord.lastFedAt = 1705276800000, nextFeedAt = 1705291200000,
              coopId = ''main'', intervalHours = 4\<rparr>],
           effects := [GateCalled \<lparr>action = ''schedule_reminder'', reason = ShortInterval 4,
                                   coopId = ''main'', intervalHours = 4\<rparr>]\<rparr>)"
    using feedSchedule_arming [OF h4 midnight_record [of 4 approving_gate] future4]
    by (simp add: new_Date_numeral approving_gate_def setApprovalCallback_def initial_feed_state_def)
  have b: "feedSchedule iso_utc (Some ''2024-01-15T00:00:00Z'') 12 True ''main'' 1705280400000
             initial_feed_state
     = (Inl NotAFunction,
        initial_feed_state\<lparr>feedingRecords := [''main'' \<mapsto>
             \<lparr>FeedingRecord.lastFedAt = 1705276800000, nextFeedAt = 1705320000000,
              coopId = ''main'', intervalHours = 12\<rparr>]\<rparr>)"
    using feedSchedule_arming [OF h12 midnight_record [of 12 initial_feed_state] future12]
    by (simp add: new_Date_numeral initial_feed_state_def)
  show ?thesis
    unfolding a b
    by (simp add: approving_gate_def setApprovalCallback_def initial_feed_state_def)
qed

lemma scheduleReminder_itself:
  "scheduleReminder ''main'' 1705291200000 1705280400000 approving_gate =
     (True, approving_gate\<lparr>timers := [(0, \<lparr>fires_at = 1705291200000, timer_coop = ''main''\<rparr>)],
                           scheduledReminders := [''main'' \<mapsto> 0], next_handle := 1,
                           effects := [TimerArmed 0 ''main'' 1705291200000]\<rparr>)"
  by (simp add: scheduleReminder_def setTimeout_def approving_gate_def setApprovalCallback_def
        initial_feed_state_def Let_def)


text \<open>
  The module-level function by itself: when every pending timer is the one registered for
  its coop and the feed time is still ahead, it leaves exactly one pending timer for the
  coop, due at the feed time or 2147483647 milliseconds after the call, whichever is
  earlier.
\<close>

lemma scheduleReminder_arms_one:
  assumes inv: "\<forall>(h, t) \<in> set (timers st). scheduledReminders st (timer_coop t) = Some h"
    and future: "now < feedTime"
  shows "fst (scheduleReminder c feedTime now st)
       \<and> filter (\<lambda>(h, t). timer_coop t = c) (timers (snd (scheduleReminder c feedTime now st)))
           = [(next_handle st, \<lparr>fires_at = now + min (feedTime - now) 2147483647, timer_coop = c\<rparr>)]
       \<and> scheduledReminders (snd (scheduleReminder c feedTime now st)) c = Some (next_handle st)"
proof (cases "scheduledReminders st c")
  case None
  with inv have "filter (\<lambda>(h, t). timer_coop t = c) (timers st) = []"
    by (auto simp: filter_empty_conv)
  with None future show ?thesis
    by (simp add: scheduleReminder_def setTimeout_def Let_def)
next
  case (Some existing)
  from inv Some have "filter (\<lambda>(h, t). timer_coop t = c) (filter (\<lambda>(k, t). k \<noteq> existing) (timers st)) = []"
    by (auto simp: filter_empty_conv)
  with Some future show ?thesis
    by (simp add: scheduleReminder_def setTimeout_def clearTimeout_def Let_def)
qed

lemma scheduleReminder_clamped:
  "scheduleReminder ''main'' 3000000000 0 initial_feed_state =
     (True, initial_feed_state\<lparr>timers := [(0, \<lparr>fires_at = 2147483647, timer_coop = ''main''\<rparr>)],
                              scheduledReminders := [''main'' \<mapsto> 0], next_handle := 1,
                              effects := [TimerArmed 0 ''main'' 2147483647]\<rparr>)"
  by (simp add: scheduleReminder_def setTimeout_def initial_feed_state_def Let_def)


end
